theory Spec2Isabelle
  imports Complex_Main
begin

section \<open>Numbers of the program\<close>

text \<open>
  A JavaScript number is a double. The samples that the aggregation reduces (heights and
  difficulties, read from the JSON of a daemon or of a pool) and the numeric fields of the
  objects are modelled by the rational number that the double denotes; \<open>NaN\<close> is a value of
  its own. The arithmetic of the model is exact. It is the arithmetic of the code as long
  as every intermediate result is itself a double. For integer samples this is the case
  when the length of the sample times every magnitude stays below \<open>2 ^ 52\<close>
  (\<open>safe_integers\<close> below): every partial sum is then an integer below \<open>2 ^ 52\<close>, the sum of
  two samples is halved exactly, and the quotient \<open>sum / length\<close> is rounded to a double on
  the same side of every half-integer, so that \<open>Math.round\<close> gives the same integer. The
  theorems on \<open>avgValue\<close> and \<open>medValue\<close> are stated for such samples.
\<close>

datatype jsnum = NaN | Num rat

datatype error =
    TypeError          \<comment> \<open>thrown by the JavaScript runtime\<close>
  | Error string       \<comment> \<open>\<open>new Error(reason)\<close>\<close>
  | Upstream string    \<comment> \<open>a rejection of an external collaborator\<close>
  | Text string        \<comment> \<open>a plain string used as the error\<close>

section \<open>Helper functions of \<open>index.js\<close>\<close>

subsection \<open>Statistics\<close>

text \<open>
  \<open>arr.reduce(f)\<close> without an initial value folds from the first element and throws a
  \<open>TypeError\<close> on an empty array.
\<close>

fun reduce :: "('a \<Rightarrow> 'a \<Rightarrow> 'a) \<Rightarrow> 'a list \<Rightarrow> error + 'a" where
  "reduce f [] = Inl TypeError"
| "reduce f (x # xs) = Inr (foldl f x xs)"

definition maxValue :: "rat list \<Rightarrow> error + rat" where
  "maxValue arr = reduce (\<lambda>a b. max a b) arr"

definition minValue :: "rat list \<Rightarrow> error + rat" where
  "minValue arr = reduce (\<lambda>a b. min a b) arr"

text \<open>\<open>Math.round\<close> rounds to the nearest integer, a tie towards \<open>+\<infinity>\<close>.\<close>

definition Math_round :: "rat \<Rightarrow> int" where
  "Math_round x = \<lfloor>x + 1 / 2\<rfloor>"

text \<open>\<open>sum / arr.length\<close> is \<open>0 / 0 = NaN\<close> on an empty array.\<close>

definition avgValue :: "rat list \<Rightarrow> jsnum" where
  "avgValue arr =
     (let sum = foldl (\<lambda>s x. s + x) 0 arr
      in if length arr = 0 then NaN
         else Num (of_int (Math_round (sum / of_nat (length arr)))))"

text \<open>
  \<open>medValue\<close> sorts its argument in place (the callers do not read the order afterwards)
  and averages the elements at \<open>(length - 1) >> 1\<close> and \<open>length >> 1\<close>. On an empty array
  both reads are \<open>undefined\<close> and the result is \<open>NaN\<close>.
\<close>

definition medValue :: "rat list \<Rightarrow> jsnum" where
  "medValue arr =
     (let srt = sort arr; n = length srt
      in if n = 0 then NaN
         else Num ((srt ! ((n - 1) div 2) + srt ! (n div 2)) / 2))"

text \<open>
  The samples on which the exact arithmetic above is the double arithmetic of the code:
  integers, with the length of the sample times every magnitude below \<open>2 ^ 52\<close>.
\<close>

definition safe_integers :: "rat list \<Rightarrow> bool" where
  "safe_integers arr = (\<forall>x\<in>set arr. x \<in> \<int> \<and> \<bar>x\<bar> * of_nat (length arr) < 2 ^ 52)"

subsection \<open>The vote\<close>

text \<open>
  \<open>tallies\<close> is the object that maps each distinct sample to \<open>{value, tally}\<close>; it is kept
  as an association list in insertion order. The order in which \<open>for (elem in tallies)\<close>
  enumerates it does not matter, since the values are pairwise distinct and the
  list is sorted right afterwards.
\<close>

record tally_entry =
  tvalue :: rat   \<comment> \<open>the field \<open>value\<close>\<close>
  tally :: nat

fun count_vote :: "rat \<Rightarrow> tally_entry list \<Rightarrow> tally_entry list" where
  "count_vote val [] = [\<lparr>tvalue = val, tally = 0 + 1\<rparr>]"
| "count_vote val (t # ts) =
     (if tvalue t = val then t\<lparr>tally := tally t + 1\<rparr> # ts else t # count_vote val ts)"

definition tallies_of :: "rat list \<Rightarrow> tally_entry list" where
  "tallies_of arr = foldl (\<lambda>tallies val. count_vote val tallies) [] arr"

record vote =
  vote_value :: rat
  confidence :: rat

text \<open>\<open>votes.sort((a, b) => b.value - a.value)\<close>: descending by value, not by tally.\<close>

definition voteValue :: "rat list \<Rightarrow> vote" where
  "voteValue arr =
     (if length arr = 0 then \<lparr>vote_value = 0, confidence = 1\<rparr>
      else
        let votes = sort_key (\<lambda>t. - tvalue t) (tallies_of arr);
            winner = hd votes
        in \<lparr>vote_value = tvalue winner,
            confidence = of_nat (tally winner) / of_nat (length arr)\<rparr>)"

subsection \<open>Spec-side notions of mean and median\<close>

text \<open>
  The specification speaks of the arithmetic mean and of the standard median (the middle
  element of the sorted sample for an odd length, the average of the two middle elements
  for an even length). These two definitions follow the specification's words; the
  code's \<open>avgValue\<close> and \<open>medValue\<close> are compared with them below.
\<close>

definition arithmetic_mean :: "rat list \<Rightarrow> rat" where
  "arithmetic_mean xs = sum_list xs / of_nat (length xs)"

definition standard_median :: "rat list \<Rightarrow> rat" where
  "standard_median xs =
     (let s = sort xs; n = length xs
      in if odd n then s ! (n div 2)
         else (s ! (n div 2 - 1) + s ! (n div 2)) / 2)"

subsection \<open>\<open>parseInteger\<close>\<close>

text \<open>
  A string is a list of code units; the model covers code units below 256. \<open>parseInt\<close>
  follows ECMAScript: leading white space is skipped, one sign is read, a prefix \<open>0x\<close> or
  \<open>0X\<close> selects radix 16, and the longest run of digits of the radix denotes an integer; no
  digit at all gives \<open>NaN\<close>. The result is the Number value of that integer: the nearest
  double, which is the integer itself below \<open>2 ^ 53\<close>, and an infinity when the rounded
  value reaches \<open>2 ^ 1024\<close>. The result of \<open>parseInt\<close> is thus \<open>NaN\<close>, an integer that is a
  double, or an infinity (\<open>-0\<close> prints as \<open>0\<close> and is falsy like \<open>0\<close>, so it is not kept
  apart).
\<close>

datatype parsed = NotANumber | Integer int | Infinity | MinusInfinity

definition StrWhiteSpaceChar :: "char \<Rightarrow> bool" where
  "StrWhiteSpaceChar c = ((of_char c :: nat) \<in> {9, 10, 11, 12, 13, 32, 160})"

definition digit_value :: "char \<Rightarrow> nat option" where
  "digit_value c =
     (let n = (of_char c :: nat)
      in if 48 \<le> n \<and> n \<le> 57 then Some (n - 48)
         else if 97 \<le> n \<and> n \<le> 122 then Some (n - 87)
         else if 65 \<le> n \<and> n \<le> 90 then Some (n - 55)
         else None)"

definition radix_digit :: "nat \<Rightarrow> char \<Rightarrow> bool" where
  "radix_digit R c = (case digit_value c of Some d \<Rightarrow> d < R | None \<Rightarrow> False)"

definition mathInt :: "nat \<Rightarrow> string \<Rightarrow> nat" where
  "mathInt R Z = foldl (\<lambda>n c. n * R + (case digit_value c of Some d \<Rightarrow> d | None \<Rightarrow> 0)) 0 Z"

text \<open>
  The Number value of a natural number \<open>m\<close>: with \<open>e\<close> the number of bits of \<open>m\<close> beyond
  53, the leading 53 bits \<open>q\<close> of \<open>m\<close> are rounded to nearest (up when the \<open>e\<close> bits cut off
  are more than half, to the even \<open>q\<close> when they are exactly half), and the double is
  \<open>q * 2 ^ e\<close>; \<open>None\<close> is \<open>+\<infinity>\<close>.
\<close>

fun bit_length :: "nat \<Rightarrow> nat" where
  "bit_length n = (if n = 0 then 0 else Suc (bit_length (n div 2)))"

declare bit_length.simps [simp del]

definition to_double :: "nat \<Rightarrow> nat option" where
  "to_double m =
     (let e = bit_length m - 53;
          q = m div 2 ^ e;
          r = m mod 2 ^ e;
          q = (if 2 ^ e < 2 * r \<or> (2 * r = 2 ^ e \<and> odd q) then q + 1 else q)
      in if 2 ^ 1024 \<le> q * 2 ^ e then None else Some (q * 2 ^ e))"

definition parseInt :: "string \<Rightarrow> parsed" where
  "parseInt inputString =
     (let S = dropWhile StrWhiteSpaceChar inputString;
          sign = (if take 1 S = ''-'' then - 1 else 1);
          S = (if take 1 S = ''+'' \<or> take 1 S = ''-'' then drop 1 S else S);
          stripPrefix = (take 2 S = ''0x'' \<or> take 2 S = ''0X'');
          R = (if stripPrefix then 16 else 10);
          S = (if stripPrefix then drop 2 S else S);
          Z = takeWhile (radix_digit R) S
      in if Z = [] then NotANumber
         else case to_double (mathInt R Z) of
                None \<Rightarrow> if sign < 0 then MinusInfinity else Infinity
              | Some v \<Rightarrow> Integer (sign * int v))"

definition digit_char :: "nat \<Rightarrow> char" where
  "digit_char d = ''0123456789'' ! d"

function decimal :: "nat \<Rightarrow> string" where
  "decimal n =
     (if n < 10 then [digit_char n]
      else decimal (n div 10) @ [digit_char (n mod 10)])"
  by pat_completeness auto
termination
  by (relation "measure (\<lambda>n. n)") auto

declare decimal.simps [simp del]

text \<open>
  \<open>a.toString()\<close> prints a double \<open>x\<close> with the fewest digits that read back as \<open>x\<close>:
  \<open>k\<close> digits \<open>s\<close> and a position \<open>n\<close> with \<open>s * 10 ^ (n - k)\<close> rounding to \<open>x\<close>, \<open>k\<close> as
  small as possible (17 digits always suffice) and, of several such \<open>s\<close>, the one nearest
  to \<open>x\<close>. For a given \<open>k\<close> the digit strings to try are the two multiples of
  \<open>10 ^ (d - k)\<close> around \<open>x\<close>, where \<open>d\<close> is the number of digits of \<open>x\<close>, and the power of
  ten above \<open>x\<close>. An integer with \<open>n \<le> 21\<close> is printed in full, its digits followed by
  \<open>n - k\<close> zeros; a larger one in exponent notation, as in \<open>1e+21\<close> or
  \<open>1.2345678901234568e+21\<close>.
\<close>

definition digit_strings :: "nat \<Rightarrow> nat \<Rightarrow> (nat \<times> nat) list" where
  "digit_strings x k =
     (let d = length (decimal x);
          low = x div 10 ^ (d - k)
      in filter (\<lambda>(s, n). 10 ^ (k - 1) \<le> s \<and> s < 10 ^ k \<and> k \<le> n \<and>
                           to_double (s * 10 ^ (n - k)) = Some x)
           [(low, d), (low + 1, d), (10 ^ (k - 1), d + 1)])"

definition distance :: "nat \<Rightarrow> nat \<Rightarrow> nat \<times> nat \<Rightarrow> nat" where
  "distance x k c = (case c of (s, n) \<Rightarrow> nat \<bar>int (s * 10 ^ (n - k)) - int x\<bar>)"

definition closer :: "nat \<Rightarrow> nat \<Rightarrow> nat \<times> nat \<Rightarrow> nat \<times> nat \<Rightarrow> nat \<times> nat" where
  "closer x k a b =
     (if distance x k b < distance x k a \<or>
         (distance x k b = distance x k a \<and> even (fst b) \<and> odd (fst a))
      then b else a)"

definition shortest_digits :: "nat \<Rightarrow> (nat \<times> nat \<times> nat) option" where
  "shortest_digits x =
     (case find (\<lambda>k. digit_strings x k \<noteq> [])
             [1, 2, 3, 4, 5, 6, 7, 8, 9, 10, 11, 12, 13, 14, 15, 16, 17] of
        None \<Rightarrow> None
      | Some k \<Rightarrow>
          (case foldl (closer x k) (hd (digit_strings x k)) (tl (digit_strings x k)) of
             (s, n) \<Rightarrow> Some (k, s, n)))"

text \<open>
  The string of a non-negative integer that is a double. (The digits exist for every
  double; for a number that is none, the plain decimal is given.)
\<close>

definition Number_toString_nat :: "nat \<Rightarrow> string" where
  "Number_toString_nat x =
     (if x = 0 then ''0''
      else case shortest_digits x of
             None \<Rightarrow> decimal x
           | Some (k, s, n) \<Rightarrow>
               if n \<le> 21 then decimal s @ replicate (n - k) (CHR ''0'')
               else (if k = 1 then decimal s
                     else take 1 (decimal s) @ ''.'' @ drop 1 (decimal s))
                    @ ''e+'' @ decimal (n - 1))"

fun Number_toString :: "parsed \<Rightarrow> string" where
  "Number_toString NotANumber = ''NaN''"
| "Number_toString Infinity = ''Infinity''"
| "Number_toString MinusInfinity = ''-Infinity''"
| "Number_toString (Integer i) =
     (if i < 0 then ''-'' @ Number_toString_nat (nat (- i)) else Number_toString_nat (nat i))"

text \<open>\<open>None\<close> is \<open>undefined\<close>.\<close>

definition parseInteger :: "string \<Rightarrow> parsed option" where
  "parseInteger str =
     (let a = parseInt str
      in if length (Number_toString a) = length str then Some a else None)"

text \<open>\<open>!idx\<close>: \<open>undefined\<close>, \<open>NaN\<close> and \<open>0\<close> are falsy.\<close>

fun not_idx :: "parsed option \<Rightarrow> bool" where
  "not_idx None = True"
| "not_idx (Some NotANumber) = True"
| "not_idx (Some (Integer i)) = (i = 0)"
| "not_idx (Some Infinity) = False"
| "not_idx (Some MinusInfinity) = False"

section \<open>The object \<open>Self\<close>\<close>

text \<open>
  A parameter \<open>node\<close> or \<open>port\<close> is \<open>undefined\<close>, a string (from the request path) or a
  number (the port of a seed). \<open>util.format('%s', x)\<close> prints it, and \<open>x || d\<close> replaces it
  by \<open>d\<close> when it is falsy.
\<close>

datatype param = PUndef | PStr string | PNum nat

fun format_s :: "param \<Rightarrow> string" where
  "format_s PUndef = ''undefined''"
| "format_s (PStr s) = s"
| "format_s (PNum n) = decimal n"

fun falsy :: "param \<Rightarrow> bool" where
  "falsy PUndef = True"
| "falsy (PStr s) = (s = [])"
| "falsy (PNum n) = (n = 0)"

definition or_else :: "param \<Rightarrow> param \<Rightarrow> param" where
  "or_else x d = (if falsy x then d else x)"

type_synonym node = "param \<times> param"   \<comment> \<open>\<open>{host, port}\<close>\<close>

text \<open>
  A JavaScript object is modelled by the fields that the program reads or writes; \<open>None\<close>
  is an absent field. The same record serves for a daemon's reply and its annotations
  (\<open>cached\<close>, \<open>node\<close>, \<open>globalHashRate\<close>), for an error payload (\<open>error\<close>, \<open>node\<close>), for
  an aggregation result (\<open>max\<close>, \<open>min\<close>, \<open>avg\<close>, \<open>med\<close>, \<open>cnt\<close>, \<open>ans\<close>, \<open>con\<close>, \<open>win\<close>,
  \<open>cached\<close>), for a block count (\<open>count\<close>, \<open>status\<close>), for a transaction pool (\<open>status\<close>,
  \<open>transactions\<close>) and for a currency id (\<open>currency_id_blob\<close>). Numeric fields of upstream
  replies are numbers or absent.
\<close>

record obj =
  height :: "rat option"
  network_height :: "rat option"
  difficulty :: "rat option"
  count :: "rat option"
  status :: "string option"
  other :: "(string \<times> string) list"    \<comment> \<open>the fields of a reply that the program never touches\<close>
  cached :: "bool option"
  node_field :: "node option"               \<comment> \<open>the field \<open>node\<close>\<close>
  globalHashRate :: "jsnum option"
  error :: "error option"
  agg_max :: "rat option"                 \<comment> \<open>the field \<open>max\<close>\<close>
  agg_min :: "rat option"                 \<comment> \<open>the field \<open>min\<close>\<close>
  avg :: "jsnum option"
  med :: "jsnum option"
  cnt :: "nat option"
  ans :: "nat option"
  con :: "rat option"
  win :: "rat option"
  transactions :: "string list option"    \<comment> \<open>the transactions of the pool, each as its JSON text\<close>
  currency_id_blob :: "string option"

definition empty_obj :: obj where
  "empty_obj =
     \<lparr>height = None, network_height = None, difficulty = None, count = None, status = None,
      other = [], cached = None, node_field = None, globalHashRate = None, error = None,
      agg_max = None, agg_min = None, avg = None, med = None, cnt = None, ans = None,
      con = None, win = None, transactions = None, currency_id_blob = None\<rparr>"

text \<open>The values that pass through the cache: \<open>undefined\<close>, \<open>false\<close> or an object.\<close>

datatype cval = Undefined | JFalse | Object obj

fun truthy :: "cval \<Rightarrow> bool" where
  "truthy Undefined = False"
| "truthy JFalse = False"
| "truthy (Object x) = True"

datatype 'a promise = Resolved 'a | Rejected error

text \<open>\<open>Promise.all\<close> resolves to the list of values, or rejects when a member rejects.\<close>

fun Promise_all :: "'a promise list \<Rightarrow> 'a list promise" where
  "Promise_all [] = Resolved []"
| "Promise_all (Rejected e # ps) = Rejected e"
| "Promise_all (Resolved v # ps) =
     (case Promise_all ps of Rejected e \<Rightarrow> Rejected e | Resolved vs \<Rightarrow> Resolved (v # vs))"

subsection \<open>External collaborators\<close>

text \<open>
  Modelled from the spec: the TTL cache (the package \<open>node-cache\<close>, not part of the
  sources). \<open>set(key, value, ttl)\<close> stores the value, overwriting any entry of the key,
  with expiry \<open>now + ttl\<close>; \<open>get(key)\<close> returns the value if present and not expired, else
  \<open>undefined\<close>. Time is counted in seconds. The cache hands out a copy of what it stores:
  assigning a field of the value returned by \<open>get\<close> does not change the entry.
\<close>

record cache_entry =
  stored :: cval
  expiresAt :: nat

type_synonym NodeCache = "string \<rightharpoonup> cache_entry"

text \<open>Modelled from the spec: \<open>set\<close> of the TTL cache, at the time \<open>now\<close>.\<close>

definition NodeCache_set :: "NodeCache \<Rightarrow> nat \<Rightarrow> string \<Rightarrow> cval \<Rightarrow> nat \<Rightarrow> NodeCache" where
  "NodeCache_set c now key v ttl = c(key \<mapsto> \<lparr>stored = v, expiresAt = now + ttl\<rparr>)"

text \<open>Modelled from the spec: \<open>get\<close> of the TTL cache, at the time \<open>now\<close>.\<close>

definition NodeCache_get :: "NodeCache \<Rightarrow> nat \<Rightarrow> string \<Rightarrow> cval" where
  "NodeCache_get c now key =
     (case c key of
        None \<Rightarrow> Undefined
      | Some e \<Rightarrow> if now < expiresAt e then stored e else Undefined)"

text \<open>
  The daemons, the pools and the mirror are the environment of one operation: what each
  of them answers when asked. A daemon method, a pool request and the mirror resolve to a
  value or reject with an error. The mirror resolves a block object, or nothing
  (\<open>undefined\<close>, of which reading \<open>count\<close> throws).
\<close>

datatype pool_body = NoBody | Body "obj option"   \<comment> \<open>the decoded body and its field \<open>network\<close>\<close>

record world =
  daemon :: "node \<Rightarrow> string \<Rightarrow> error + cval"        \<comment> \<open>\<open>rpc.getInfo()\<close>, \<open>rpc.getHeight()\<close>, ...\<close>
  daemon_getBlockCount :: "node \<Rightarrow> error + rat"      \<comment> \<open>\<open>rpc.getBlockCount()\<close>\<close>
  daemon_getTransactionPool :: "node \<Rightarrow> error + string list"   \<comment> \<open>\<open>rpc.getTransactionPool()\<close>\<close>
  daemon_getCurrencyId :: "node \<Rightarrow> error + string"     \<comment> \<open>\<open>rpc.getCurrencyId()\<close>\<close>
  blockCache_getBlockCount :: "error + obj option"      \<comment> \<open>\<open>this.blockCache.getBlockCount()\<close>\<close>
  Request :: "string \<Rightarrow> error + pool_body"             \<comment> \<open>\<open>Request({method: 'GET', uri: url, ...})\<close>\<close>

datatype upstream_call = Rpc node string | Http string | Mirror string

subsection \<open>Fields and constructor\<close>

record self =
  cacheTimeout :: nat
  timeout :: nat
  defaultHost :: param
  defaultPort :: param
  seeds :: "node list"
  pools :: "(string \<times> string) list"     \<comment> \<open>\<open>{name, url}\<close>\<close>
  maxDeviance :: rat
  cache :: NodeCache
  clock :: nat                            \<comment> \<open>the current time, in seconds\<close>
  calls :: "upstream_call list"           \<comment> \<open>the requests sent to collaborators so far\<close>

definition targetBlockTime :: int where
  "targetBlockTime = 30"

definition backupSeeds :: "node list" where
  "backupSeeds =
     [(PStr ''us-east.turtlenode.io'', PNum 11898),
      (PStr ''us-west.turtlenode.io'', PNum 11898),
      (PStr ''asia.turtlenode.io'', PNum 11898),
      (PStr ''europe.turtlenode.io'', PNum 11898),
      (PStr ''public.turtlenode.io'', PNum 11898),
      (PStr ''daemon.turtle.link'', PNum 11898)]"

record opts =
  opts_cacheTimeout :: "nat option"
  opts_timeout :: "nat option"
  opts_defaultHost :: "string option"
  opts_defaultPort :: "nat option"
  opts_seeds :: "node list option"
  opts_pools :: "(string \<times> string) list option"
  opts_maxDeviance :: "rat option"

text \<open>\<open>opts.x || d\<close> for a number: an absent or zero \<open>x\<close> gives the default.\<close>

definition or_default :: "'a::zero option \<Rightarrow> 'a \<Rightarrow> 'a" where
  "or_default x d = (case x of None \<Rightarrow> d | Some v \<Rightarrow> if v = 0 then d else v)"

text \<open>
  The fields that the constructor sets, at time \<open>now\<close>. (The constructor also registers
  the routes and starts the periodic refreshes, which call the operations below.)
\<close>

definition Self :: "opts \<Rightarrow> nat \<Rightarrow> self" where
  "Self opts now =
     \<lparr>cacheTimeout = or_default (opts_cacheTimeout opts) 30,
      timeout = or_default (opts_timeout opts) 5000,
      defaultHost =
        (case opts_defaultHost opts of
           None \<Rightarrow> PStr ''public.turtlenode.io''
         | Some h \<Rightarrow> if h = [] then PStr ''public.turtlenode.io'' else PStr h),
      defaultPort = PNum (or_default (opts_defaultPort opts) 11898),
      seeds = (case opts_seeds opts of None \<Rightarrow> backupSeeds | Some l \<Rightarrow> l),
      pools = (case opts_pools opts of None \<Rightarrow> [] | Some l \<Rightarrow> l),
      maxDeviance = or_default (opts_maxDeviance opts) 5,
      cache = Map.empty,
      clock = now,
      calls = []\<rparr>"

text \<open>\<open>new TurtleCoind({host, port})\<close>: the client of one daemon; \<open>rpc.host\<close>, \<open>rpc.port\<close>.\<close>

definition TurtleCoind :: "param \<Rightarrow> param \<Rightarrow> node" where
  "TurtleCoind host port = (host, port)"

subsection \<open>\<open>_set\<close> and \<open>_get\<close>\<close>

text \<open>\<open>util.format('%s%s%s', node, port, method)\<close>: the three values, printed one after the other.\<close>

definition util_format :: "param \<Rightarrow> param \<Rightarrow> string \<Rightarrow> string" where
  "util_format node port method = format_s node @ format_s port @ method"

definition Self_set :: "self \<Rightarrow> param \<Rightarrow> param \<Rightarrow> string \<Rightarrow> cval \<Rightarrow> nat option \<Rightarrow> self" where
  "Self_set s node port method data ttl =
     (let ttl = or_default ttl (cacheTimeout s);
          key = util_format node port method
      in s\<lparr>cache := NodeCache_set (cache s) (clock s) key data ttl\<rparr>)"

definition Self_get :: "self \<Rightarrow> param \<Rightarrow> param \<Rightarrow> string \<Rightarrow> cval" where
  "Self_get s node port method =
     (let key = util_format node port method;
          ret = NodeCache_get (cache s) (clock s) key
      in if \<not> truthy ret then JFalse else ret)"

subsection \<open>Standard JSON HTTP API commands\<close>

text \<open>
  An operation returns a promise. Its executor runs at once: it reads the cache and, on a
  miss, sends the request. The rest runs when the daemon has answered: the \<open>then\<close>
  callback writes the cache. An operation is therefore modelled by the value that its
  promise settles to, together with the effect of its callbacks on \<open>this\<close>, which applies
  to the state in which they run. \<open>await\<close> lets one operation finish with nothing in
  between. A request sent to a collaborator is recorded in \<open>calls\<close>.

  Assigning a field of a value that is not an object throws a \<open>TypeError\<close> (the file is
  in strict mode), which the \<open>catch\<close> of the promise chain receives like a rejection of
  the daemon.
\<close>

type_synonym 'a task = "'a promise \<times> (self \<Rightarrow> self)"

definition await :: "'a task \<Rightarrow> self \<Rightarrow> 'a promise \<times> self" where
  "await p s = (fst p, snd p s)"

definition sent :: "upstream_call \<Rightarrow> self \<Rightarrow> self" where
  "sent c s = s\<lparr>calls := calls s @ [c]\<rparr>"

definition error_payload :: "error \<Rightarrow> node \<Rightarrow> obj" where
  "error_payload err rpc = empty_obj\<lparr>error := Some err, node_field := Some rpc\<rparr>"

definition Self_getInfo :: "world \<Rightarrow> self \<Rightarrow> param \<Rightarrow> param \<Rightarrow> obj task" where
  "Self_getInfo w s node port =
     (let rpc = TurtleCoind (or_else node (defaultHost s)) (or_else port (defaultPort s))
      in case Self_get s node port ''getinfo'' of
           Object hit \<Rightarrow> (Resolved (hit\<lparr>cached := Some True\<rparr>), \<lambda>s. s)
         | _ \<Rightarrow>
           (case daemon w rpc ''getInfo'' of
              Inr (Object data) \<Rightarrow>
                (let data = data\<lparr>cached := Some False\<rparr>;
                     data = data\<lparr>node_field := Some rpc\<rparr>;
                     data = data\<lparr>globalHashRate := Some
                       (case difficulty data of
                          None \<Rightarrow> NaN
                        | Some d \<Rightarrow>
                            Num (of_int (Math_round (d / of_int targetBlockTime))))\<rparr>
                 in (Resolved data,
                     \<lambda>s. Self_set (sent (Rpc rpc ''getInfo'') s) node port ''getinfo'' (Object data) None))
            | Inr _ \<Rightarrow> (Resolved (error_payload TypeError rpc), sent (Rpc rpc ''getInfo''))
            | Inl err \<Rightarrow> (Resolved (error_payload err rpc), sent (Rpc rpc ''getInfo''))))"

definition Self_feeInfo :: "world \<Rightarrow> self \<Rightarrow> param \<Rightarrow> param \<Rightarrow> obj task" where
  "Self_feeInfo w s node port =
     (let rpc = TurtleCoind (or_else node (defaultHost s)) (or_else port (defaultPort s))
      in case Self_get s node port ''feeinfo'' of
           Object hit \<Rightarrow> (Resolved (hit\<lparr>cached := Some True\<rparr>), \<lambda>s. s)
         | _ \<Rightarrow>
           (case daemon w rpc ''feeInfo'' of
              Inr (Object data) \<Rightarrow>
                (let data = data\<lparr>cached := Some False\<rparr>;
                     data = data\<lparr>node_field := Some rpc\<rparr>
                 in (Resolved data,
                     \<lambda>s. Self_set (sent (Rpc rpc ''feeInfo'') s) node port ''feeinfo'' (Object data) None))
            | Inr _ \<Rightarrow> (Resolved (error_payload TypeError rpc), sent (Rpc rpc ''feeInfo''))
            | Inl err \<Rightarrow> (Resolved (error_payload err rpc), sent (Rpc rpc ''feeInfo''))))"

definition Self_getHeight :: "world \<Rightarrow> self \<Rightarrow> param \<Rightarrow> param \<Rightarrow> obj task" where
  "Self_getHeight w s node port =
     (let rpc = TurtleCoind (or_else node (defaultHost s)) (or_else port (defaultPort s))
      in case Self_get s node port ''getheight'' of
           Object hit \<Rightarrow> (Resolved (hit\<lparr>cached := Some True\<rparr>), \<lambda>s. s)
         | _ \<Rightarrow>
           (case daemon w rpc ''getHeight'' of
              Inr (Object data) \<Rightarrow>
                (let data = data\<lparr>cached := Some False\<rparr>;
                     data = data\<lparr>node_field := Some rpc\<rparr>
                 in (Resolved data,
                     \<lambda>s. Self_set (sent (Rpc rpc ''getHeight'') s) node port ''getheight'' (Object data) None))
            | Inr _ \<Rightarrow> (Resolved (error_payload TypeError rpc), sent (Rpc rpc ''getHeight''))
            | Inl err \<Rightarrow> (Resolved (error_payload err rpc), sent (Rpc rpc ''getHeight''))))"

definition Self_getTransactions :: "world \<Rightarrow> self \<Rightarrow> param \<Rightarrow> param \<Rightarrow> obj task" where
  "Self_getTransactions w s node port =
     (let rpc = TurtleCoind (or_else node (defaultHost s)) (or_else port (defaultPort s))
      in case Self_get s node port ''gettransactions'' of
           Object hit \<Rightarrow> (Resolved (hit\<lparr>cached := Some True\<rparr>), \<lambda>s. s)
         | _ \<Rightarrow>
           (case daemon w rpc ''getTransactions'' of
              Inr (Object data) \<Rightarrow>
                (let data = data\<lparr>cached := Some False\<rparr>;
                     data = data\<lparr>node_field := Some rpc\<rparr>
                 in (Resolved data,
                     \<lambda>s. Self_set (sent (Rpc rpc ''getTransactions'') s) node port ''gettransactions'' (Object data) None))
            | Inr _ \<Rightarrow> (Resolved (error_payload TypeError rpc), sent (Rpc rpc ''getTransactions''))
            | Inl err \<Rightarrow> (Resolved (error_payload err rpc), sent (Rpc rpc ''getTransactions''))))"

definition Self_getPeers :: "world \<Rightarrow> self \<Rightarrow> param \<Rightarrow> param \<Rightarrow> obj task" where
  "Self_getPeers w s node port =
     (let rpc = TurtleCoind (or_else node (defaultHost s)) (or_else port (defaultPort s))
      in case Self_get s node port ''getpeers'' of
           Object hit \<Rightarrow> (Resolved (hit\<lparr>cached := Some True\<rparr>), \<lambda>s. s)
         | _ \<Rightarrow>
           (case daemon w rpc ''getPeers'' of
              Inr (Object data) \<Rightarrow>
                (let data = data\<lparr>cached := Some False\<rparr>;
                     data = data\<lparr>node_field := Some rpc\<rparr>
                 in (Resolved data,
                     \<lambda>s. Self_set (sent (Rpc rpc ''getPeers'') s) node port ''getpeers'' (Object data) None))
            | Inr _ \<Rightarrow> (Resolved (error_payload TypeError rpc), sent (Rpc rpc ''getPeers''))
            | Inl err \<Rightarrow> (Resolved (error_payload err rpc), sent (Rpc rpc ''getPeers''))))"

subsection \<open>Explorer commands that use the cache\<close>

text \<open>
  \<open>getTransactionPool\<close> and \<open>getCurrencyId\<close> take the node as \<open>opts\<close> and read the cache
  under \<open>rpc.host\<close> and \<open>rpc.port\<close>. A cached value is resolved as it is. On a miss they
  ask the daemon, wrap its answer into an object, store and resolve that object; their
  \<open>catch\<close> rejects with the error of the daemon.
\<close>

definition getTransactionPool :: "world \<Rightarrow> self \<Rightarrow> node \<Rightarrow> obj task" where
  "getTransactionPool w s opts =
     (let rpc = TurtleCoind (fst opts) (snd opts)
      in case Self_get s (fst rpc) (snd rpc) ''f_on_transactions_pool_json'' of
           Object hit \<Rightarrow> (Resolved hit, \<lambda>s. s)
         | _ \<Rightarrow>
           (case daemon_getTransactionPool w rpc of
              Inr pool \<Rightarrow>
                (let data = empty_obj\<lparr>status := Some ''OK'', transactions := Some pool\<rparr>
                 in (Resolved data,
                     \<lambda>s. Self_set (sent (Rpc rpc ''getTransactionPool'') s) (fst rpc) (snd rpc)
                            ''f_on_transactions_pool_json'' (Object data) None))
            | Inl err \<Rightarrow> (Rejected err, sent (Rpc rpc ''getTransactionPool''))))"

definition getCurrencyId :: "world \<Rightarrow> self \<Rightarrow> node \<Rightarrow> obj task" where
  "getCurrencyId w s opts =
     (let rpc = TurtleCoind (fst opts) (snd opts)
      in case Self_get s (fst rpc) (snd rpc) ''getcurrencyid'' of
           Object hit \<Rightarrow> (Resolved hit, \<lambda>s. s)
         | _ \<Rightarrow>
           (case daemon_getCurrencyId w rpc of
              Inr currency \<Rightarrow>
                (let data = empty_obj\<lparr>currency_id_blob := Some currency\<rparr>
                 in (Resolved data,
                     \<lambda>s. Self_set (sent (Rpc rpc ''getCurrencyId'') s) (fst rpc) (snd rpc)
                            ''getcurrencyid'' (Object data) None))
            | Inl err \<Rightarrow> (Rejected err, sent (Rpc rpc ''getCurrencyId''))))"

subsection \<open>Block count\<close>

text \<open>
  \<open>Math.abs(networkHeight - block.count) > this.maxDeviance\<close>: when one of the two
  numbers is \<open>undefined\<close> the difference is \<open>NaN\<close> and the comparison is false.
\<close>

definition deviates :: "rat option \<Rightarrow> rat option \<Rightarrow> rat \<Rightarrow> bool" where
  "deviates networkHeight blockCount maxDev =
     (case (networkHeight, blockCount) of
        (Some n, Some c) \<Rightarrow> \<bar>n - c\<bar> > maxDev
      | _ \<Rightarrow> False)"

text \<open>The \<open>catch\<close> branch of \<open>getBlockCount\<close>: the live call of the given node.\<close>

definition getBlockCount_live :: "world \<Rightarrow> self \<Rightarrow> node \<Rightarrow> obj promise \<times> self" where
  "getBlockCount_live w s rpc =
     (let s = sent (Rpc rpc ''getBlockCount'') s
      in case daemon_getBlockCount w rpc of
           Inr data \<Rightarrow> (Resolved (empty_obj\<lparr>count := Some data, status := Some ''OK''\<rparr>), s)
         | Inl err \<Rightarrow> (Rejected (Error ''Failure encountered''), s))"

definition getBlockCount :: "world \<Rightarrow> self \<Rightarrow> node \<Rightarrow> obj promise \<times> self" where
  "getBlockCount w s opts =
     (let rpc = TurtleCoind (fst opts) (snd opts)
      in case await (Self_getHeight w s PUndef PUndef) s of
           (Rejected err, s) \<Rightarrow> getBlockCount_live w s rpc
         | (Resolved data, s) \<Rightarrow>
             (let networkHeight = network_height data;
                  s = sent (Mirror ''getBlockCount'') s
              in case blockCache_getBlockCount w of
                   Inr (Some block) \<Rightarrow>
                     if deviates networkHeight (count block) (maxDeviance s)
                     then getBlockCount_live w s rpc
                     else (Resolved block, s)
                 | Inr None \<Rightarrow> getBlockCount_live w s rpc
                 | Inl err \<Rightarrow> getBlockCount_live w s rpc))"

subsection \<open>Custom JSON HTTP API commands: the aggregation\<close>

text \<open>
  \<open>if (!data.network) return resolve({error: ...})\<close>, and \<open>this._set('pool', url,
  'networkInfo')\<close> passes no data: the cache stores \<open>undefined\<close>.
\<close>

definition Self_getPoolNetworkInfo :: "world \<Rightarrow> self \<Rightarrow> string \<Rightarrow> obj task" where
  "Self_getPoolNetworkInfo w s url =
     (case Self_get s (PStr ''pool'') (PStr url) ''networkInfo'' of
        Object hit \<Rightarrow> (Resolved (hit\<lparr>cached := Some True\<rparr>), \<lambda>s. s)
      | _ \<Rightarrow>
        (case Request w url of
           Inr (Body (Some network)) \<Rightarrow>
             (Resolved network,
              \<lambda>s. Self_set (sent (Http url) s) (PStr ''pool'') (PStr url) ''networkInfo''
                     Undefined None)
         | Inr (Body None) \<Rightarrow>
             (Resolved (empty_obj\<lparr>error := Some (Text ''Invalid data returned by remote host'')\<rparr>),
              sent (Http url))
         | Inr NoBody \<Rightarrow> (Resolved (empty_obj\<lparr>error := Some TypeError\<rparr>), sent (Http url))
         | Inl err \<Rightarrow> (Resolved (empty_obj\<lparr>error := Some err\<rparr>), sent (Http url))))"

text \<open>
  \<open>if (!results[j].height) continue\<close>: an absent or zero value is not a sample.

  Each of the four functions computes \<open>ttl = Math.round(targetBlockTime / 3)\<close> and passes
  it to \<open>_get\<close> as a fourth argument, which \<open>_get\<close> does not have; \<open>_set\<close> is called without a
  ttl.

  The requests of one round are started in a loop, before any of them is answered: every
  one reads the cache as it is when the round starts. Their callbacks then run (here in
  the order of the list), and \<open>Promise.all\<close> hands the results over. An empty sample makes
  \<open>maxValue\<close> throw inside the \<open>then\<close> callback, and the \<open>catch\<close> resolves \<open>{error: err}\<close>.
\<close>

definition usable :: "rat option \<Rightarrow> rat option" where
  "usable v = (case v of None \<Rightarrow> None | Some x \<Rightarrow> if x = 0 then None else Some x)"

definition Self_getGlobalHeight :: "world \<Rightarrow> self \<Rightarrow> obj promise \<times> self" where
  "Self_getGlobalHeight w s =
     (case Self_get s (PStr ''network'') (PStr ''network'') ''globalheight'' of
        Object hit \<Rightarrow> (Resolved (hit\<lparr>cached := Some True\<rparr>), s)
      | _ \<Rightarrow>
        (let promises = map (\<lambda>n. Self_getHeight w s (fst n) (snd n)) (seeds s);
             s = foldl (\<lambda>s p. snd p s) s promises
         in case Promise_all (map fst promises) of
              Rejected err \<Rightarrow> (Resolved (empty_obj\<lparr>error := Some err\<rparr>), s)
            | Resolved results \<Rightarrow>
                (let heights = List.map_filter (\<lambda>r. usable (height r)) results;
                     voter = voteValue heights
                 in case maxValue heights of
                      Inl err \<Rightarrow> (Resolved (empty_obj\<lparr>error := Some err\<rparr>), s)
                    | Inr mx \<Rightarrow>
                        (case minValue heights of
                           Inl err \<Rightarrow> (Resolved (empty_obj\<lparr>error := Some err\<rparr>), s)
                         | Inr mn \<Rightarrow>
                             (let data = empty_obj
                                \<lparr>agg_max := Some mx,
                                 agg_min := Some mn,
                                 avg := Some (avgValue heights),
                                 med := Some (medValue heights),
                                 cnt := Some (length results),
                                 ans := Some (length heights),
                                 con := Some (confidence voter),
                                 win := Some (vote_value voter),
                                 cached := Some False\<rparr>
                              in (Resolved data,
                                  Self_set s (PStr ''network'') (PStr ''network'') ''globalheight''
                                    (Object data) None))))))"

definition Self_getGlobalDifficulty :: "world \<Rightarrow> self \<Rightarrow> obj promise \<times> self" where
  "Self_getGlobalDifficulty w s =
     (case Self_get s (PStr ''network'') (PStr ''network'') ''globaldifficulty'' of
        Object hit \<Rightarrow> (Resolved (hit\<lparr>cached := Some True\<rparr>), s)
      | _ \<Rightarrow>
        (let promises = map (\<lambda>n. Self_getInfo w s (fst n) (snd n)) (seeds s);
             s = foldl (\<lambda>s p. snd p s) s promises
         in case Promise_all (map fst promises) of
              Rejected err \<Rightarrow> (Resolved (empty_obj\<lparr>error := Some err\<rparr>), s)
            | Resolved results \<Rightarrow>
                (let diffs = List.map_filter (\<lambda>r. usable (difficulty r)) results;
                     voter = voteValue diffs
                 in case maxValue diffs of
                      Inl err \<Rightarrow> (Resolved (empty_obj\<lparr>error := Some err\<rparr>), s)
                    | Inr mx \<Rightarrow>
                        (case minValue diffs of
                           Inl err \<Rightarrow> (Resolved (empty_obj\<lparr>error := Some err\<rparr>), s)
                         | Inr mn \<Rightarrow>
                             (let data = empty_obj
                                \<lparr>agg_max := Some mx,
                                 agg_min := Some mn,
                                 avg := Some (avgValue diffs),
                                 med := Some (medValue diffs),
                                 cnt := Some (length results),
                                 ans := Some (length diffs),
                                 con := Some (confidence voter),
                                 win := Some (vote_value voter),
                                 cached := Some False\<rparr>
                              in (Resolved data,
                                  Self_set s (PStr ''network'') (PStr ''network'') ''globaldifficulty''
                                    (Object data) None))))))"

definition Self_getGlobalPoolHeight :: "world \<Rightarrow> self \<Rightarrow> obj promise \<times> self" where
  "Self_getGlobalPoolHeight w s =
     (case Self_get s (PStr ''pool'') (PStr ''pool'') ''globalpoolheight'' of
        Object hit \<Rightarrow> (Resolved (hit\<lparr>cached := Some True\<rparr>), s)
      | _ \<Rightarrow>
        (let promises = map (\<lambda>n. Self_getPoolNetworkInfo w s (snd n)) (pools s);
             s = foldl (\<lambda>s p. snd p s) s promises
         in case Promise_all (map fst promises) of
              Rejected err \<Rightarrow> (Resolved (empty_obj\<lparr>error := Some err\<rparr>), s)
            | Resolved results \<Rightarrow>
                (let heights = List.map_filter (\<lambda>r. usable (height r)) results;
                     voter = voteValue heights
                 in case maxValue heights of
                      Inl err \<Rightarrow> (Resolved (empty_obj\<lparr>error := Some err\<rparr>), s)
                    | Inr mx \<Rightarrow>
                        (case minValue heights of
                           Inl err \<Rightarrow> (Resolved (empty_obj\<lparr>error := Some err\<rparr>), s)
                         | Inr mn \<Rightarrow>
                             (let data = empty_obj
                                \<lparr>agg_max := Some mx,
                                 agg_min := Some mn,
                                 avg := Some (avgValue heights),
                                 med := Some (medValue heights),
                                 cnt := Some (length heights),
                                 con := Some (confidence voter),
                                 win := Some (vote_value voter),
                                 cached := Some False\<rparr>
                              in (Resolved data,
                                  Self_set s (PStr ''pool'') (PStr ''pool'') ''globalpoolheight''
                                    (Object data) None))))))"

definition Self_getGlobalPoolDifficulty :: "world \<Rightarrow> self \<Rightarrow> obj promise \<times> self" where
  "Self_getGlobalPoolDifficulty w s =
     (case Self_get s (PStr ''pool'') (PStr ''pool'') ''globalpooldifficulty'' of
        Object hit \<Rightarrow> (Resolved (hit\<lparr>cached := Some True\<rparr>), s)
      | _ \<Rightarrow>
        (let promises = map (\<lambda>n. Self_getPoolNetworkInfo w s (snd n)) (pools s);
             s = foldl (\<lambda>s p. snd p s) s promises
         in case Promise_all (map fst promises) of
              Rejected err \<Rightarrow> (Resolved (empty_obj\<lparr>error := Some err\<rparr>), s)
            | Resolved results \<Rightarrow>
                (let diffs = List.map_filter (\<lambda>r. usable (difficulty r)) results;
                     voter = voteValue diffs
                 in case maxValue diffs of
                      Inl err \<Rightarrow> (Resolved (empty_obj\<lparr>error := Some err\<rparr>), s)
                    | Inr mx \<Rightarrow>
                        (case minValue diffs of
                           Inl err \<Rightarrow> (Resolved (empty_obj\<lparr>error := Some err\<rparr>), s)
                         | Inr mn \<Rightarrow>
                             (let data = empty_obj
                                \<lparr>agg_max := Some mx,
                                 agg_min := Some mn,
                                 avg := Some (avgValue diffs),
                                 med := Some (medValue diffs),
                                 cnt := Some (length diffs),
                                 con := Some (confidence voter),
                                 win := Some (vote_value voter),
                                 cached := Some False\<rparr>
                              in (Resolved data,
                                  Self_set s (PStr ''pool'') (PStr ''pool'') ''globalpooldifficulty''
                                    (Object data) None))))))"

section \<open>The routes\<close>

text \<open>
  The handlers that the constructor registers, one per route. \<open>request.params\<close> maps a
  name of the path pattern to the string that the router extracted. A handler either
  answers on the spot or invokes an operation and answers when its promise settles
  (with the JSON of the value, or with status 500 on a rejection). Which handler a path
  reaches is decided by the routing framework.
\<close>

datatype endpoint =
  Info | Fee | Height | Peers | GetInfo | FeeInfo | GetHeight | GetPeers | GetTransactions

datatype route =
    Root | GlobalHeight | GlobalDifficulty | GlobalPoolHeight | GlobalPoolDifficulty
  | Pools | TrustedNodes
  | Node_ep endpoint          \<comment> \<open>\<open>GET /:node/info\<close>, ...\<close>
  | Node_port_ep endpoint     \<comment> \<open>\<open>GET /:node/:port/info\<close>, ...\<close>
  | Default_ep endpoint       \<comment> \<open>\<open>GET /info\<close>, ...\<close>
  | Get_node_json_rpc | Get_node_port_json_rpc | Get_json_rpc
  | Post_node_json_rpc | Post_node_port_json_rpc | Post_json_rpc
  | Blocks_count | Blocks_height | Block_header_top | Block_header_idx | Block_idx
  | Transaction_pool | Transaction_hash | Transactions_paymentid | Currency

datatype operation =
    Op_getGlobalHeight | Op_getGlobalDifficulty | Op_getGlobalPoolHeight
  | Op_getGlobalPoolDifficulty
  | Op_getInfo param param | Op_feeInfo param param | Op_getHeight param param
  | Op_getPeers param param | Op_getTransactions param param
  | Op_processJsonRPC param param
  | Op_getBlockCount node
  | Op_getBlocks node string
  | Op_getLastBlockHeader node
  | Op_getBlockHeaderByHash node string
  | Op_getBlockHeaderByHeight node "parsed option"
  | Op_getBlock node string
  | Op_getBlockHash node "parsed option"
  | Op_getTransactionPool node
  | Op_getTransaction node string
  | Op_getTransactionHashesByPaymentId node string
  | Op_getCurrencyId node

datatype response =
    Status nat           \<comment> \<open>\<open>response.status(n).send()\<close>, no operation invoked\<close>
  | Json_pools | Json_seeds
  | Invoke operation

type_synonym params = "string \<rightharpoonup> string"

text \<open>\<open>!request.params.x\<close>: the parameter is \<open>undefined\<close> or the empty string.\<close>

definition missing :: "string option \<Rightarrow> bool" where
  "missing p = (case p of None \<Rightarrow> True | Some v \<Rightarrow> v = [])"

text \<open>The string of a parameter, which a handler reads once its guard has found it present.\<close>

definition the_default :: "string \<Rightarrow> string option \<Rightarrow> string" where
  "the_default d p = (case p of None \<Rightarrow> d | Some v \<Rightarrow> v)"

definition to_param :: "string option \<Rightarrow> param" where
  "to_param p = (case p of None \<Rightarrow> PUndef | Some v \<Rightarrow> PStr v)"

fun command :: "endpoint \<Rightarrow> param \<Rightarrow> param \<Rightarrow> operation" where
  "command Info n p = Op_getInfo n p"
| "command Fee n p = Op_feeInfo n p"
| "command Height n p = Op_getHeight n p"
| "command Peers n p = Op_getPeers n p"
| "command GetInfo n p = Op_getInfo n p"
| "command FeeInfo n p = Op_feeInfo n p"
| "command GetHeight n p = Op_getHeight n p"
| "command GetPeers n p = Op_getPeers n p"
| "command GetTransactions n p = Op_getTransactions n p"

fun handler :: "self \<Rightarrow> route \<Rightarrow> params \<Rightarrow> response" where
  "handler s Root ps = Status 404"
| "handler s GlobalHeight ps = Invoke Op_getGlobalHeight"
| "handler s GlobalDifficulty ps = Invoke Op_getGlobalDifficulty"
| "handler s GlobalPoolHeight ps = Invoke Op_getGlobalPoolHeight"
| "handler s GlobalPoolDifficulty ps = Invoke Op_getGlobalPoolDifficulty"
| "handler s Pools ps = Json_pools"
| "handler s TrustedNodes ps = Json_seeds"
| "handler s (Node_ep e) ps =
     (if missing (ps ''node'') then Status 400
      else Invoke (command e (to_param (ps ''node'')) PUndef))"
| "handler s (Node_port_ep e) ps =
     (if missing (ps ''node'') \<or> missing (ps ''port'') then Status 400
      else Invoke (command e (to_param (ps ''node'')) (to_param (ps ''port''))))"
| "handler s (Default_ep e) ps = Invoke (command e PUndef PUndef)"
| "handler s Get_node_json_rpc ps = Status 400"
| "handler s Get_node_port_json_rpc ps = Status 400"
| "handler s Get_json_rpc ps = Status 400"
| "handler s Post_node_json_rpc ps = Invoke (Op_processJsonRPC (to_param (ps ''node'')) PUndef)"
| "handler s Post_node_port_json_rpc ps =
     (if missing (ps ''node'') \<or> missing (ps ''port'') then Status 400
      else Invoke (Op_processJsonRPC (to_param (ps ''node'')) (to_param (ps ''port''))))"
| "handler s Post_json_rpc ps = Invoke (Op_processJsonRPC PUndef PUndef)"
| "handler s Blocks_count ps = Invoke (Op_getBlockCount (defaultHost s, defaultPort s))"
| "handler s Blocks_height ps =
     (if missing (ps ''height'') then Status 400
      else Invoke (Op_getBlocks (defaultHost s, defaultPort s) (the_default [] (ps ''height''))))"
| "handler s Block_header_top ps = Invoke (Op_getLastBlockHeader (defaultHost s, defaultPort s))"
| "handler s Block_header_idx ps =
     (if missing (ps ''idx'') then Status 400
      else
        let idx = parseInteger (the_default [] (ps ''idx''))
        in if not_idx idx
           then Invoke (Op_getBlockHeaderByHash (defaultHost s, defaultPort s)
                          (the_default [] (ps ''idx'')))
           else Invoke (Op_getBlockHeaderByHeight (defaultHost s, defaultPort s) idx))"
| "handler s Block_idx ps =
     (if missing (ps ''idx'') then Status 400
      else
        let idx = parseInteger (the_default [] (ps ''idx''))
        in if not_idx idx
           then Invoke (Op_getBlock (defaultHost s, defaultPort s) (the_default [] (ps ''idx'')))
           else Invoke (Op_getBlockHash (defaultHost s, defaultPort s) idx))"
| "handler s Transaction_pool ps = Invoke (Op_getTransactionPool (defaultHost s, defaultPort s))"
| "handler s Transaction_hash ps =
     (if missing (ps ''hash'') then Status 400
      else Invoke (Op_getTransaction (defaultHost s, defaultPort s) (the_default [] (ps ''hash''))))"
| "handler s Transactions_paymentid ps =
     (if missing (ps ''paymentid'') then Status 500
      else Invoke (Op_getTransactionHashesByPaymentId (defaultHost s, defaultPort s)
                     (the_default [] (ps ''paymentid''))))"
| "handler s Currency ps = Invoke (Op_getCurrencyId (defaultHost s, defaultPort s))"

text \<open>The path parameters that the pattern of a route names.\<close>

fun path_parameters :: "route \<Rightarrow> string list" where
  "path_parameters (Node_ep e) = [''node'']"
| "path_parameters (Node_port_ep e) = [''node'', ''port'']"
| "path_parameters Get_node_json_rpc = [''node'']"
| "path_parameters Get_node_port_json_rpc = [''node'', ''port'']"
| "path_parameters Post_node_json_rpc = [''node'']"
| "path_parameters Post_node_port_json_rpc = [''node'', ''port'']"
| "path_parameters Blocks_height = [''height'']"
| "path_parameters Block_header_idx = [''idx'']"
| "path_parameters Block_idx = [''idx'']"
| "path_parameters Transaction_hash = [''hash'']"
| "path_parameters Transactions_paymentid = [''paymentid'']"
| "path_parameters r = []"

section \<open>Notions used to state the properties\<close>

text \<open>
  The five standard commands as one family: the operation, the method name in its cache
  key, and the daemon method that produces its value.
\<close>

datatype standard_command = Cmd_getInfo | Cmd_feeInfo | Cmd_getHeight | Cmd_getTransactions | Cmd_getPeers

fun standard :: "standard_command \<Rightarrow> world \<Rightarrow> self \<Rightarrow> param \<Rightarrow> param \<Rightarrow> obj task" where
  "standard Cmd_getInfo = Self_getInfo"
| "standard Cmd_feeInfo = Self_feeInfo"
| "standard Cmd_getHeight = Self_getHeight"
| "standard Cmd_getTransactions = Self_getTransactions"
| "standard Cmd_getPeers = Self_getPeers"

fun cache_name :: "standard_command \<Rightarrow> string" where
  "cache_name Cmd_getInfo = ''getinfo''"
| "cache_name Cmd_feeInfo = ''feeinfo''"
| "cache_name Cmd_getHeight = ''getheight''"
| "cache_name Cmd_getTransactions = ''gettransactions''"
| "cache_name Cmd_getPeers = ''getpeers''"

fun producer :: "standard_command \<Rightarrow> string" where
  "producer Cmd_getInfo = ''getInfo''"
| "producer Cmd_feeInfo = ''feeInfo''"
| "producer Cmd_getHeight = ''getHeight''"
| "producer Cmd_getTransactions = ''getTransactions''"
| "producer Cmd_getPeers = ''getPeers''"

text \<open>
  The two explorer commands that use the cache as one family: the operation, the method
  name in its cache key, the daemon method, and the object that the operation makes of
  the daemon's answer.
\<close>

datatype explorer_command = Cmd_getTransactionPool | Cmd_getCurrencyId

fun explorer :: "explorer_command \<Rightarrow> world \<Rightarrow> self \<Rightarrow> node \<Rightarrow> obj task" where
  "explorer Cmd_getTransactionPool = getTransactionPool"
| "explorer Cmd_getCurrencyId = getCurrencyId"

fun explorer_cache_name :: "explorer_command \<Rightarrow> string" where
  "explorer_cache_name Cmd_getTransactionPool = ''f_on_transactions_pool_json''"
| "explorer_cache_name Cmd_getCurrencyId = ''getcurrencyid''"

fun explorer_producer :: "explorer_command \<Rightarrow> string" where
  "explorer_producer Cmd_getTransactionPool = ''getTransactionPool''"
| "explorer_producer Cmd_getCurrencyId = ''getCurrencyId''"

fun produced :: "explorer_command \<Rightarrow> world \<Rightarrow> node \<Rightarrow> error + obj" where
  "produced Cmd_getTransactionPool w rpc =
     (case daemon_getTransactionPool w rpc of
        Inl err \<Rightarrow> Inl err
      | Inr pool \<Rightarrow> Inr (empty_obj\<lparr>status := Some ''OK'', transactions := Some pool\<rparr>))"
| "produced Cmd_getCurrencyId w rpc =
     (case daemon_getCurrencyId w rpc of
        Inl err \<Rightarrow> Inl err
      | Inr currency \<Rightarrow> Inr (empty_obj\<lparr>currency_id_blob := Some currency\<rparr>))"

text \<open>The four aggregations as one family, with the cache key of each.\<close>

datatype aggregation = Agg_height | Agg_difficulty | Agg_pool_height | Agg_pool_difficulty

fun aggregate :: "aggregation \<Rightarrow> world \<Rightarrow> self \<Rightarrow> obj promise \<times> self" where
  "aggregate Agg_height = Self_getGlobalHeight"
| "aggregate Agg_difficulty = Self_getGlobalDifficulty"
| "aggregate Agg_pool_height = Self_getGlobalPoolHeight"
| "aggregate Agg_pool_difficulty = Self_getGlobalPoolDifficulty"

fun aggregation_key :: "aggregation \<Rightarrow> string" where
  "aggregation_key Agg_height = util_format (PStr ''network'') (PStr ''network'') ''globalheight''"
| "aggregation_key Agg_difficulty =
     util_format (PStr ''network'') (PStr ''network'') ''globaldifficulty''"
| "aggregation_key Agg_pool_height = util_format (PStr ''pool'') (PStr ''pool'') ''globalpoolheight''"
| "aggregation_key Agg_pool_difficulty =
     util_format (PStr ''pool'') (PStr ''pool'') ''globalpooldifficulty''"

text \<open>
  What a fresh reply looks like once the command has annotated it: \<open>cached\<close> and \<open>node\<close>
  are set, and \<open>_getInfo\<close> adds \<open>globalHashRate\<close>; the other fields are the daemon's.
\<close>

definition same_reply :: "obj \<Rightarrow> obj \<Rightarrow> bool" where
  "same_reply a b =
     (a\<lparr>cached := None, node_field := None, globalHashRate := None\<rparr> =
      b\<lparr>cached := None, node_field := None, globalHashRate := None\<rparr>)"

text \<open>The tally that a list of votes holds for a value (0 when it holds none).\<close>

definition tally_of :: "tally_entry list \<Rightarrow> rat \<Rightarrow> nat" where
  "tally_of ts x = (case find (\<lambda>t. tvalue t = x) ts of None \<Rightarrow> 0 | Some t \<Rightarrow> tally t)"

text \<open>
  The specification's test for a height: parsing the identifier as an integer and
  converting back to a string reproduces the identifier.
\<close>

definition round_trips :: "string \<Rightarrow> bool" where
  "round_trips str = (parseInt str \<noteq> NotANumber \<and> Number_toString (parseInt str) = str)"

text \<open>The test that \<open>parseInteger\<close> makes: the result prints with the length of the identifier.\<close>

definition prints_as_long :: "string \<Rightarrow> bool" where
  "prints_as_long str =
     (parseInt str \<noteq> NotANumber \<and> length (Number_toString (parseInt str)) = length str)"

definition decimal_digits :: "string \<Rightarrow> bool" where
  "decimal_digits str = list_all (radix_digit 10) str"

fun height_lookup :: "response \<Rightarrow> bool" where
  "height_lookup (Invoke (Op_getBlockHeaderByHeight n h)) = True"
| "height_lookup (Invoke (Op_getBlockHash n h)) = True"
| "height_lookup r = False"

fun hash_lookup :: "response \<Rightarrow> bool" where
  "hash_lookup (Invoke (Op_getBlockHeaderByHash n h)) = True"
| "hash_lookup (Invoke (Op_getBlock n h)) = True"
| "hash_lookup r = False"

subsection \<open>Scenarios\<close>

definition no_opts :: opts where
  "no_opts =
     \<lparr>opts_cacheTimeout = None, opts_timeout = None, opts_defaultHost = None,
      opts_defaultPort = None, opts_seeds = None, opts_pools = None,
      opts_maxDeviance = None\<rparr>"

text \<open>No daemon, pool or mirror answers.\<close>

definition all_down :: world where
  "all_down =
     \<lparr>daemon = (\<lambda>n m. Inl (Upstream ''ETIMEDOUT'')),
      daemon_getBlockCount = (\<lambda>n. Inl (Upstream ''ETIMEDOUT'')),
      daemon_getTransactionPool = (\<lambda>n. Inl (Upstream ''ETIMEDOUT'')),
      daemon_getCurrencyId = (\<lambda>n. Inl (Upstream ''ETIMEDOUT'')),
      blockCache_getBlockCount = Inl (Upstream ''not ready''),
      Request = (\<lambda>url. Inl (Upstream ''ETIMEDOUT''))\<rparr>"

text \<open>
  Every daemon reports its own height \<open>h\<close> and the network height \<open>nh\<close>; the mirror holds
  \<open>c\<close> blocks; a live block count gives \<open>live\<close>. The transaction pool of every daemon is
  empty, and every daemon knows the currency id.
\<close>

definition the_currency :: string where
  "the_currency = ''7fb97df81221dd1366051b2d0bc7f49c66c22ac4431d879c895b06d66ef66f4c''"

definition network :: "rat \<Rightarrow> rat \<Rightarrow> rat \<Rightarrow> rat \<Rightarrow> world" where
  "network h nh c live =
     \<lparr>daemon = (\<lambda>n m. Inr (Object (empty_obj
          \<lparr>height := Some h, network_height := Some nh, status := Some ''OK''\<rparr>))),
      daemon_getBlockCount = (\<lambda>n. Inr live),
      daemon_getTransactionPool = (\<lambda>n. Inr []),
      daemon_getCurrencyId = (\<lambda>n. Inr the_currency),
      blockCache_getBlockCount = Inr (Some (empty_obj\<lparr>count := Some c\<rparr>)),
      Request = (\<lambda>url. Inl (Upstream ''ETIMEDOUT''))\<rparr>"

text \<open>Two pools, of which the first answers and the second does not.\<close>

definition two_pools :: "(string \<times> string) list" where
  "two_pools = [(''one'', ''https://one.example/stats''), (''two'', ''https://two.example/stats'')]"

definition one_pool_up :: world where
  "one_pool_up =
     \<lparr>daemon = (\<lambda>n m. Inl (Upstream ''ETIMEDOUT'')),
      daemon_getBlockCount = (\<lambda>n. Inl (Upstream ''ETIMEDOUT'')),
      daemon_getTransactionPool = (\<lambda>n. Inl (Upstream ''ETIMEDOUT'')),
      daemon_getCurrencyId = (\<lambda>n. Inl (Upstream ''ETIMEDOUT'')),
      blockCache_getBlockCount = Inl (Upstream ''not ready''),
      Request = (\<lambda>url.
        if url = ''https://one.example/stats''
        then Inr (Body (Some (empty_obj\<lparr>height := Some 100, difficulty := Some 5000\<rparr>)))
        else Inl (Upstream ''ETIMEDOUT''))\<rparr>"

text \<open>The default node of a \<open>Self\<close> constructed without options.\<close>

definition default_node :: node where
  "default_node = (PStr ''public.turtlenode.io'', PNum 11898)"

text \<open>The object that \<open>getCurrencyId\<close> makes of the currency id.\<close>

definition currency_reply :: obj where
  "currency_reply = empty_obj\<lparr>currency_id_blob := Some the_currency\<rparr>"

text \<open>A daemon reply used in the examples.\<close>

definition reply_100 :: obj where
  "reply_100 = empty_obj\<lparr>height := Some 100, network_height := Some 100, status := Some ''OK''\<rparr>"

text \<open>
  The same reply as \<open>_getHeight('a', '12')\<close> annotates it, and the state of a fresh \<open>Self\<close>
  after that call.
\<close>

definition annotated_100 :: obj where
  "annotated_100 = reply_100\<lparr>cached := Some False, node_field := Some (PStr ''a'', PStr ''12'')\<rparr>"

definition after_miss :: self where
  "after_miss =
     (Self no_opts 0)
       \<lparr>cache := [util_format (PStr ''a'') (PStr ''12'') ''getheight'' \<mapsto>
                   \<lparr>stored = Object annotated_100, expiresAt = 30\<rparr>],
        calls := [Rpc (PStr ''a'', PStr ''12'') ''getHeight'']\<rparr>"

text \<open>The state of a fresh \<open>Self\<close> after \<open>getCurrencyId\<close> of the default node.\<close>

definition after_currency :: self where
  "after_currency =
     (Self no_opts 0)
       \<lparr>cache := [util_format (PStr ''public.turtlenode.io'') (PNum 11898) ''getcurrencyid'' \<mapsto>
                   \<lparr>stored = Object currency_reply, expiresAt = 30\<rparr>],
        calls := [Rpc default_node ''getCurrencyId'']\<rparr>"

section \<open>Properties of the statistics\<close>

lemma foldl_max_eq: "foldl max (x::rat) xs = Max (insert x (set xs))"
proof (induction xs arbitrary: x)
  case Nil
  show ?case by simp
next
  case (Cons y ys)
  show ?case using Cons.IH [of "max x y"]
    by (cases "set ys = {}") (simp_all add: max.assoc)
qed

lemma foldl_min_eq: "foldl min (x::rat) xs = Min (insert x (set xs))"
proof (induction xs arbitrary: x)
  case Nil
  show ?case by simp
next
  case (Cons y ys)
  show ?case using Cons.IH [of "min x y"]
    by (cases "set ys = {}") (simp_all add: min.assoc)
qed

lemma maxValue_Max: "arr \<noteq> [] \<Longrightarrow> maxValue arr = Inr (Max (set arr))"
  by (cases arr) (simp_all add: maxValue_def foldl_max_eq)

lemma minValue_Min: "arr \<noteq> [] \<Longrightarrow> minValue arr = Inr (Min (set arr))"
  by (cases arr) (simp_all add: minValue_def foldl_min_eq)

lemma foldl_plus_sum_list: "foldl (\<lambda>s x. s + x) (a::rat) arr = a + sum_list arr"
  by (induction arr arbitrary: a) simp_all

lemma sum_list_lower:
  "(\<And>x. x \<in> set arr \<Longrightarrow> (lo::rat) \<le> x) \<Longrightarrow> lo * of_nat (length arr) \<le> sum_list arr"
proof (induction arr)
  case Nil
  show ?case by simp
next
  case (Cons a arr)
  have "lo \<le> a" using Cons.prems by simp
  moreover have "lo * of_nat (length arr) \<le> sum_list arr" using Cons by simp
  ultimately show ?case by (simp add: algebra_simps)
qed

lemma sum_list_upper:
  "(\<And>x. x \<in> set arr \<Longrightarrow> x \<le> (hi::rat)) \<Longrightarrow> sum_list arr \<le> hi * of_nat (length arr)"
proof (induction arr)
  case Nil
  show ?case by simp
next
  case (Cons a arr)
  have "a \<le> hi" using Cons.prems by simp
  moreover have "sum_list arr \<le> hi * of_nat (length arr)" using Cons by simp
  ultimately show ?case by (simp add: algebra_simps)
qed

lemma Math_round_bounds:
  assumes "of_int lo \<le> x" and "x \<le> of_int hi"
  shows "lo \<le> Math_round x \<and> Math_round x \<le> hi"
proof -
  have "of_int lo \<le> x + 1 / 2" using assms(1) by simp
  then have a: "lo \<le> \<lfloor>x + 1 / 2\<rfloor>" by (simp add: le_floor_iff)
  have "x + 1 / 2 < of_int (hi + 1)" using assms(2) by simp
  then have "\<lfloor>x + 1 / 2\<rfloor> < hi + 1" by (simp only: floor_less_iff)
  with a show ?thesis by (simp add: Math_round_def)
qed

lemma Math_round_nearest: "\<bar>of_int (Math_round x) - x\<bar> \<le> 1 / 2"
proof -
  have "of_int \<lfloor>x + 1 / 2\<rfloor> \<le> x + 1 / 2" and "x + 1 / 2 < of_int \<lfloor>x + 1 / 2\<rfloor> + 1"
    by linarith+
  then show ?thesis unfolding Math_round_def by linarith
qed

lemma mean_bounds:
  assumes "arr \<noteq> []"
  shows "Min (set arr) \<le> arithmetic_mean arr"
    and "arithmetic_mean arr \<le> Max (set arr)"
proof -
  let ?n = "length arr"
  have n: "0 < (of_nat ?n :: rat)" using assms by simp
  have "Min (set arr) * of_nat ?n \<le> sum_list arr"
    by (rule sum_list_lower) simp
  then show "Min (set arr) \<le> arithmetic_mean arr"
    unfolding arithmetic_mean_def using n by (simp add: pos_le_divide_eq)
  have "sum_list arr \<le> Max (set arr) * of_nat ?n"
    by (rule sum_list_upper) simp
  then show "arithmetic_mean arr \<le> Max (set arr)"
    unfolding arithmetic_mean_def using n by (simp add: pos_divide_le_eq)
qed

lemma avgValue_mean:
  "arr \<noteq> [] \<Longrightarrow> avgValue arr = Num (of_int (Math_round (arithmetic_mean arr)))"
  by (simp add: avgValue_def arithmetic_mean_def foldl_plus_sum_list)

lemma medValue_median:
  assumes "arr \<noteq> []"
  shows "medValue arr = Num (standard_median arr)"
proof -
  let ?n = "length arr"
  have n: "0 < ?n" using assms by simp
  have [simp]: "sort arr \<noteq> []" using assms by (metis length_sort length_0_conv)
  show ?thesis
  proof (cases "odd ?n")
    case True
    then have "(?n - 1) div 2 = ?n div 2" by presburger
    with True n show ?thesis by (simp add: medValue_def standard_median_def Let_def)
  next
    case False
    then have "(?n - 1) div 2 = ?n div 2 - 1" using n by presburger
    with False n show ?thesis by (simp add: medValue_def standard_median_def Let_def)
  qed
qed

lemma sorted_nth_bounds:
  fixes arr :: "rat list"
  assumes "i < length arr"
  shows "Min (set arr) \<le> sort arr ! i" and "sort arr ! i \<le> Max (set arr)"
proof -
  have "sort arr ! i \<in> set (sort arr)" using assms by (simp only: nth_mem length_sort)
  then have m: "sort arr ! i \<in> set arr" by simp
  show "Min (set arr) \<le> sort arr ! i" using m by simp
  show "sort arr ! i \<le> Max (set arr)" using m by simp
qed

lemma median_bounds:
  assumes "arr \<noteq> []"
  shows "Min (set arr) \<le> standard_median arr"
    and "standard_median arr \<le> Max (set arr)"
proof -
  let ?n = "length arr"
  have n: "0 < ?n" using assms by simp
  have i1: "?n div 2 < ?n" using n by simp
  have i2: "?n div 2 - 1 < ?n" using n by arith
  note a = sorted_nth_bounds [OF i1] and b = sorted_nth_bounds [OF i2]
  show "Min (set arr) \<le> standard_median arr"
    unfolding standard_median_def Let_def using a(1) b(1) by (simp split: if_splits)
  show "standard_median arr \<le> Max (set arr)"
    unfolding standard_median_def Let_def using a(2) b(2) by (simp split: if_splits)
qed

lemma Math_round_of_int [simp]: "Math_round (of_int i) = i"
proof -
  have "\<lfloor>(of_int i :: rat) + 1 / 2\<rfloor> = i" by (simp add: floor_eq_iff)
  then show ?thesis by (simp add: Math_round_def)
qed

lemma Math_round_numeral [simp]: "Math_round (numeral k) = numeral k"
  using Math_round_of_int [of "numeral k"] by simp

text \<open>
  On safe integer samples every partial sum is an integer below \<open>2 ^ 52\<close>: the loop of
  \<open>avgValue\<close> adds without rounding.
\<close>

lemma sum_list_Ints: "(\<And>x. x \<in> set xs \<Longrightarrow> x \<in> \<int>) \<Longrightarrow> sum_list xs \<in> (\<int> :: rat set)"
  by (induction xs) simp_all

lemma sum_list_abs_less:
  "xs \<noteq> [] \<Longrightarrow> (\<And>x. x \<in> set xs \<Longrightarrow> \<bar>x\<bar> < (B::rat)) \<Longrightarrow>
   \<bar>sum_list xs\<bar> < B * of_nat (length xs)"
proof (induction xs)
  case Nil
  then show ?case by simp
next
  case (Cons a xs)
  have a: "\<bar>a\<bar> < B" using Cons.prems(2) by simp
  show ?case
  proof (cases "xs = []")
    case True
    then show ?thesis using a by simp
  next
    case False
    then have "\<bar>sum_list xs\<bar> < B * of_nat (length xs)" using Cons by simp
    then have "\<bar>a\<bar> + \<bar>sum_list xs\<bar> < B + B * of_nat (length xs)" using a by linarith
    moreover have "\<bar>a + sum_list xs\<bar> \<le> \<bar>a\<bar> + \<bar>sum_list xs\<bar>" by (rule abs_triangle_ineq)
    ultimately show ?thesis by (simp add: algebra_simps)
  qed
qed

lemma partial_sums_safe:
  assumes "safe_integers arr" and "k \<le> length arr"
  shows "sum_list (take k arr) \<in> \<int> \<and> \<bar>sum_list (take k arr)\<bar> < 2 ^ 52"
proof -
  have ints: "sum_list (take k arr) \<in> \<int>"
  proof (rule sum_list_Ints)
    fix x assume "x \<in> set (take k arr)"
    then have "x \<in> set arr" by (rule in_set_takeD)
    then show "x \<in> \<int>" using assms(1) by (simp add: safe_integers_def)
  qed
  have "\<bar>sum_list (take k arr)\<bar> < 2 ^ 52"
  proof (cases "take k arr = []")
    case True
    have "sum_list (take k arr) = 0" unfolding True by simp
    then show ?thesis by simp
  next
    case False
    then have k: "0 < k" and n: "0 < length arr" by auto
    let ?B = "2 ^ 52 / (of_nat (length arr) :: rat)"
    have each: "\<bar>x\<bar> < ?B" if "x \<in> set (take k arr)" for x
    proof -
      have "x \<in> set arr" using that by (rule in_set_takeD)
      then have "\<bar>x\<bar> * of_nat (length arr) < 2 ^ 52" using assms(1) by (simp add: safe_integers_def)
      then show ?thesis using n by (simp add: pos_less_divide_eq)
    qed
    have "\<bar>sum_list (take k arr)\<bar> < ?B * of_nat (length (take k arr))"
      using False each by (rule sum_list_abs_less)
    also have "\<dots> = ?B * of_nat k" using assms(2) by simp
    also have "\<dots> \<le> ?B * of_nat (length arr)"
      using assms(2) by (intro mult_left_mono) simp_all
    also have "\<dots> = 2 ^ 52" using n by simp
    finally show ?thesis .
  qed
  with ints show ?thesis by simp
qed

lemma rounded_mean_bounds:
  assumes "arr \<noteq> []" and "safe_integers arr"
  shows "Min (set arr) \<le> of_int (Math_round (arithmetic_mean arr))"
    and "of_int (Math_round (arithmetic_mean arr)) \<le> Max (set arr)"
proof -
  have "Min (set arr) \<in> set arr" and "Max (set arr) \<in> set arr" using assms(1) by simp_all
  then have "Min (set arr) \<in> \<int>" and "Max (set arr) \<in> \<int>"
    using assms(2) by (simp_all add: safe_integers_def)
  then obtain lo hi where lo: "Min (set arr) = of_int lo" and hi: "Max (set arr) = of_int hi"
    by (auto elim!: Ints_cases)
  have "lo \<le> Math_round (arithmetic_mean arr) \<and> Math_round (arithmetic_mean arr) \<le> hi"
    using mean_bounds [OF assms(1)] unfolding lo hi by (rule Math_round_bounds)
  then show "Min (set arr) \<le> of_int (Math_round (arithmetic_mean arr))"
    and "of_int (Math_round (arithmetic_mean arr)) \<le> Max (set arr)"
    unfolding lo hi by simp_all
qed

text \<open>
  C9, for integer samples. For every non-empty sample of safe integers the four
  statistics are defined: \<open>maxValue\<close> and \<open>minValue\<close> return the largest and the smallest
  sample, \<open>avgValue\<close> is the arithmetic mean rounded to the nearest integer (at most one
  half away from the mean), \<open>medValue\<close> is the standard median of the sorted sample, and
  both the median and the average lie between the minimum and the maximum. Every partial
  sum of the sample is an integer below \<open>2 ^ 52\<close>.
\<close>

theorem statistics_within_range:
  assumes "arr \<noteq> []" and "safe_integers arr"
  shows "maxValue arr = Inr (Max (set arr)) \<and>
         minValue arr = Inr (Min (set arr)) \<and>
         avgValue arr = Num (of_int (Math_round (arithmetic_mean arr))) \<and>
         \<bar>of_int (Math_round (arithmetic_mean arr)) - arithmetic_mean arr\<bar> \<le> 1 / 2 \<and>
         medValue arr = Num (standard_median arr) \<and>
         Min (set arr) \<le> standard_median arr \<and>
         standard_median arr \<le> Max (set arr) \<and>
         Min (set arr) \<le> of_int (Math_round (arithmetic_mean arr)) \<and>
         of_int (Math_round (arithmetic_mean arr)) \<le> Max (set arr) \<and>
         (\<forall>k\<le>length arr. sum_list (take k arr) \<in> \<int> \<and> \<bar>sum_list (take k arr)\<bar> < 2 ^ 52)"
  using assms maxValue_Max minValue_Min avgValue_mean Math_round_nearest medValue_median
    median_bounds rounded_mean_bounds partial_sums_safe
  by simp

theorem statistics_within_range_witness:
  "[5, 5, 7, 8] \<noteq> ([] :: rat list) \<and> safe_integers [5, 5, 7, 8] \<and>
   maxValue [5, 5, 7, 8] = Inr 8 \<and> minValue [5, 5, 7, 8] = Inr 5 \<and>
   avgValue [5, 5, 7, 8] = Num 6 \<and> medValue [5, 5, 7, 8] = Num 6 \<and>
   standard_median [5, 5, 7, 8] = 6 \<and> Math_round (arithmetic_mean [5, 5, 7, 8]) = 6"
proof -
  have ne: "[5, 5, 7, 8] \<noteq> ([] :: rat list)" by simp
  have safe: "safe_integers [5, 5, 7, 8]" by (simp add: safe_integers_def)
  have m: "standard_median [5, 5, 7, 8] = 6" by (simp add: standard_median_def)
  have "arithmetic_mean [5, 5, 7, 8] = 25 / 4" by (simp add: arithmetic_mean_def)
  then have a: "Math_round (arithmetic_mean [5, 5, 7, 8]) = 6"
    by (simp add: Math_round_def floor_eq_iff)
  show ?thesis using statistics_within_range [OF ne safe] m a safe by simp
qed

text \<open>
  C9, as the claim states it for every numeric sample, fails on a sample that is not an
  integer: for the sample \<open>[0.5]\<close> the minimum, the maximum, the mean and the median are
  \<open>0.5\<close>, and \<open>avgValue\<close> is \<open>Math.round(0.5) = 1\<close>, above the maximum.
\<close>

theorem statistics_fractional_sample:
  "minValue [1 / 2] = Inr (1 / 2) \<and> maxValue [1 / 2] = Inr (1 / 2) \<and>
   arithmetic_mean [1 / 2] = 1 / 2 \<and> medValue [1 / 2] = Num (1 / 2) \<and>
   avgValue [1 / 2] = Num 1 \<and> (1 / 2 :: rat) < 1"
  by (simp add: minValue_def maxValue_def arithmetic_mean_def medValue_def avgValue_def
      Math_round_def)


section \<open>The vote\<close>

text \<open>
  The tallies hold each distinct sample once, with the number of its occurrences. The
  votes are sorted by value, so the winner is the largest sample, whatever the tallies,
  and the confidence is the share of that sample.
\<close>

lemma tallies_of_snoc: "tallies_of (xs @ [v]) = count_vote v (tallies_of xs)"
  by (simp add: tallies_of_def)

lemma tvalues_count_vote: "tvalue ` set (count_vote v ts) = insert v (tvalue ` set ts)"
  by (induction ts) auto

lemma distinct_count_vote:
  "distinct (map tvalue ts) \<Longrightarrow> distinct (map tvalue (count_vote v ts))"
proof (induction ts)
  case Nil
  show ?case by simp
next
  case (Cons t ts)
  show ?case
  proof (cases "tvalue t = v")
    case True
    then show ?thesis using Cons.prems by simp
  next
    case False
    have "tvalue t \<notin> tvalue ` set (count_vote v ts)"
      using Cons.prems False by (simp add: tvalues_count_vote)
    then show ?thesis using Cons False by simp
  qed
qed

lemma tally_of_count_vote:
  "tally_of (count_vote v ts) x = (if x = v then tally_of ts x + 1 else tally_of ts x)"
  by (induction ts) (auto simp: tally_of_def)

lemma tallies_of_invariant:
  "tvalue ` set (tallies_of arr) = set arr \<and> distinct (map tvalue (tallies_of arr)) \<and>
   (\<forall>x. tally_of (tallies_of arr) x = count_list arr x)"
proof (induction arr rule: rev_induct)
  case Nil
  show ?case by (simp add: tallies_of_def tally_of_def)
next
  case (snoc v xs)
  then show ?case
    by (simp add: tallies_of_snoc tvalues_count_vote distinct_count_vote tally_of_count_vote)
qed

lemma tally_of_member:
  "distinct (map tvalue ts) \<Longrightarrow> t \<in> set ts \<Longrightarrow> tally_of ts (tvalue t) = tally t"
proof (induction ts)
  case Nil
  then show ?case by simp
next
  case (Cons u ts)
  show ?case
  proof (cases "t = u")
    case True
    then show ?thesis by (simp add: tally_of_def)
  next
    case False
    then have t: "t \<in> set ts" using Cons.prems(2) by simp
    then have "tvalue u \<noteq> tvalue t" using Cons.prems(1) by auto
    moreover have "tally_of ts (tvalue t) = tally t" using Cons t by simp
    ultimately show ?thesis by (simp add: tally_of_def)
  qed
qed

lemma hd_sort_key_least:
  fixes f :: "'a \<Rightarrow> rat"
  assumes "ts \<noteq> []"
  shows "hd (sort_key f ts) \<in> set ts \<and> (\<forall>t\<in>set ts. f (hd (sort_key f ts)) \<le> f t)"
proof -
  let ?vs = "sort_key f ts"
  have "length ?vs = length ts" by simp
  then have "?vs \<noteq> []" using assms by (simp only: length_0_conv [symmetric]) simp
  then obtain a rest where vs: "?vs = a # rest" by (cases ?vs) simp_all
  have s: "set ts = set (a # rest)" using set_sort [of f ts] by (simp only: vs)
  have "sorted (map f ?vs)" by (rule sorted_sort_key)
  then have "\<forall>t\<in>set rest. f a \<le> f t" by (simp add: vs)
  then show ?thesis unfolding vs s by simp
qed

lemma voteValue_largest:
  assumes "arr \<noteq> []"
  shows "voteValue arr =
           \<lparr>vote_value = Max (set arr),
            confidence = of_nat (count_list arr (Max (set arr))) / of_nat (length arr)\<rparr>"
proof -
  let ?ts = "tallies_of arr"
  let ?w = "hd (sort_key (\<lambda>t. - tvalue t) ?ts)"
  have vals: "tvalue ` set ?ts = set arr" and dist: "distinct (map tvalue ?ts)"
    and cnt: "\<And>x. tally_of ?ts x = count_list arr x"
    using tallies_of_invariant [of arr] by simp_all
  have ne: "?ts \<noteq> []" using vals assms by auto
  from hd_sort_key_least [OF ne, of "\<lambda>t. - tvalue t"]
  have mem: "?w \<in> set ?ts" and top: "\<And>t. t \<in> set ?ts \<Longrightarrow> tvalue t \<le> tvalue ?w" by simp_all
  have in_arr: "tvalue ?w \<in> set arr" using mem vals by (simp only: image_eqI [OF refl] flip: vals)
  have above: "x \<le> tvalue ?w" if "x \<in> set arr" for x
  proof -
    from that vals obtain t where "t \<in> set ?ts" and "x = tvalue t" by (auto simp: image_iff dest!: sym [of _ "set arr"])
    then show ?thesis using top by simp
  qed
  have mx: "Max (set arr) = tvalue ?w"
    using in_arr above by (intro Max_eqI) simp_all
  have "tally ?w = tally_of ?ts (tvalue ?w)"
    using tally_of_member [OF dist mem] by simp
  then have "tally ?w = count_list arr (Max (set arr))" using cnt mx by simp
  then show ?thesis using assms mx by (simp add: voteValue_def Let_def)
qed

text \<open>
  C1. The vote on \<open>[5, 5, 7]\<close>: the tallies are 2 for the value 5 and 1 for the value 7,
  the votes are sorted by value, and the winner is 7 with confidence 1/3 (not the value 5
  of the highest tally with confidence 2/3). On the tie \<open>[5, 5, 7, 7]\<close> the winner is 7
  with confidence 1/2.
\<close>

theorem voteValue_sorts_by_value:
  "voteValue [5, 5, 7] = \<lparr>vote_value = 7, confidence = 1 / 3\<rparr> \<and>
   voteValue [5, 5, 7, 7] = \<lparr>vote_value = 7, confidence = 1 / 2\<rparr>"
  by (simp add: voteValue_def tallies_of_def)

section \<open>The cache and the standard commands\<close>

lemmas cache_defs = Self_get_def Self_set_def NodeCache_get_def NodeCache_set_def or_default_def

lemmas command_defs = Self_getInfo_def Self_feeInfo_def Self_getHeight_def
  Self_getTransactions_def Self_getPeers_def

lemmas scenario_defs = Self_def no_opts_def backupSeeds_def all_down_def network_def
  one_pool_up_def two_pools_def

lemmas step_defs = TurtleCoind_def or_else_def sent_def error_payload_def await_def
  util_format_def Let_def

lemma Self_get_hit:
  "NodeCache_get (cache s) (clock s) (util_format node port method) = Object v \<Longrightarrow>
   Self_get s node port method = Object v"
  by (simp add: Self_get_def)

lemma Self_get_miss:
  "NodeCache_get (cache s) (clock s) (util_format node port method) = Undefined \<Longrightarrow>
   Self_get s node port method = JFalse"
  by (simp add: Self_get_def)

lemma standard_hit:
  assumes "NodeCache_get (cache s) (clock s) (util_format node port (cache_name a)) = Object v"
  shows "await (standard a w s node port) s = (Resolved (v\<lparr>cached := Some True\<rparr>), s)"
  using Self_get_hit [OF assms]
  by (cases a) (simp_all add: command_defs await_def)

lemma standard_miss_ok:
  assumes miss: "NodeCache_get (cache s) (clock s) (util_format node port (cache_name a)) = Undefined"
    and ok: "daemon w (or_else node (defaultHost s), or_else port (defaultPort s)) (producer a) = Inr (Object d)"
  shows "\<exists>data. await (standard a w s node port) s =
           (Resolved data,
            s\<lparr>calls := calls s @ [Rpc (or_else node (defaultHost s), or_else port (defaultPort s)) (producer a)],
              cache := (cache s)(util_format node port (cache_name a) \<mapsto>
                 \<lparr>stored = Object data, expiresAt = clock s + cacheTimeout s\<rparr>)\<rparr>) \<and>
           cached data = Some False \<and> same_reply data d \<and>
           node_field data = Some (or_else node (defaultHost s), or_else port (defaultPort s))"
  using Self_get_miss [OF miss] ok
  by (cases a) (simp_all add: command_defs await_def TurtleCoind_def sent_def Self_set_def
      NodeCache_set_def or_default_def same_reply_def Let_def)


lemma same_reply_fields:
  assumes "same_reply a b"
  shows "height a = height b" and "network_height a = network_height b"
    and "difficulty a = difficulty b" and "other a = other b"
proof -
  let ?c = "\<lambda>x::obj. x\<lparr>cached := None, node_field := None, globalHashRate := None\<rparr>"
  have eq: "?c a = ?c b" using assms by (simp add: same_reply_def)
  have "height (?c a) = height (?c b)" by (simp only: eq)
  then show "height a = height b" by simp
  have "network_height (?c a) = network_height (?c b)" by (simp only: eq)
  then show "network_height a = network_height b" by simp
  have "difficulty (?c a) = difficulty (?c b)" by (simp only: eq)
  then show "difficulty a = difficulty b" by simp
  have "other (?c a) = other (?c b)" by (simp only: eq)
  then show "other a = other b" by simp
qed

lemma NodeCache_get_later:
  assumes "NodeCache_get c now key = Undefined" and "now \<le> t"
  shows "NodeCache_get c t key = Undefined"
  using assms by (auto simp: NodeCache_get_def split: option.splits if_splits)

lemma standard_calls_on_miss:
  assumes "NodeCache_get (cache s) (clock s) (util_format node port (cache_name a)) = Undefined"
  shows "calls (snd (await (standard a w s node port) s)) =
         calls s @ [Rpc (or_else node (defaultHost s), or_else port (defaultPort s)) (producer a)]"
  using Self_get_miss [OF assms]
  by (cases a)
     (simp_all add: command_defs await_def TurtleCoind_def sent_def Self_set_def Let_def
        split: sum.splits cval.splits)

lemma standard_miss_failed:
  assumes miss: "NodeCache_get (cache s) (clock s) (util_format node port (cache_name a)) = Undefined"
    and fail: "daemon w (or_else node (defaultHost s), or_else port (defaultPort s)) (producer a) = Inl err"
  shows "await (standard a w s node port) s =
           (Resolved (empty_obj\<lparr>error := Some err,
              node_field := Some (or_else node (defaultHost s), or_else port (defaultPort s))\<rparr>),
            s\<lparr>calls := calls s @ [Rpc (or_else node (defaultHost s), or_else port (defaultPort s)) (producer a)]\<rparr>)"
  using Self_get_miss [OF miss] fail
  by (cases a) (simp_all add: command_defs await_def TurtleCoind_def sent_def error_payload_def Let_def)


text \<open>The explorer commands read through the cache as well, but set no \<open>cached\<close> field.\<close>

lemmas explorer_defs = getTransactionPool_def getCurrencyId_def

lemma explorer_hit:
  assumes "NodeCache_get (cache s) (clock s)
             (util_format (fst opts) (snd opts) (explorer_cache_name e)) = Object v"
  shows "await (explorer e w s opts) s = (Resolved v, s)"
  using Self_get_hit [OF assms]
  by (cases e) (simp_all add: explorer_defs await_def TurtleCoind_def)

lemma explorer_miss_ok:
  assumes miss: "NodeCache_get (cache s) (clock s)
                   (util_format (fst opts) (snd opts) (explorer_cache_name e)) = Undefined"
    and ok: "produced e w opts = Inr d"
  shows "await (explorer e w s opts) s =
           (Resolved d,
            s\<lparr>calls := calls s @ [Rpc opts (explorer_producer e)],
              cache := (cache s)(util_format (fst opts) (snd opts) (explorer_cache_name e) \<mapsto>
                 \<lparr>stored = Object d, expiresAt = clock s + cacheTimeout s\<rparr>)\<rparr>) \<and>
         cached d = None"
  using Self_get_miss [OF miss] ok
  by (cases e)
     (auto simp: explorer_defs await_def TurtleCoind_def sent_def Self_set_def
        NodeCache_set_def or_default_def empty_obj_def Let_def split: sum.splits)

lemma explorer_miss_failed:
  assumes miss: "NodeCache_get (cache s) (clock s)
                   (util_format (fst opts) (snd opts) (explorer_cache_name e)) = Undefined"
    and fail: "produced e w opts = Inl err"
  shows "await (explorer e w s opts) s =
           (Rejected err, s\<lparr>calls := calls s @ [Rpc opts (explorer_producer e)]\<rparr>)"
  using Self_get_miss [OF miss] fail
  by (cases e)
     (auto simp: explorer_defs await_def TurtleCoind_def sent_def Let_def split: sum.splits)

lemma explorer_calls_on_miss:
  assumes "NodeCache_get (cache s) (clock s)
             (util_format (fst opts) (snd opts) (explorer_cache_name e)) = Undefined"
  shows "calls (snd (await (explorer e w s opts) s)) =
         calls s @ [Rpc opts (explorer_producer e)]"
  using Self_get_miss [OF assms]
  by (cases e)
     (simp_all add: explorer_defs await_def TurtleCoind_def sent_def Self_set_def Let_def
        split: sum.splits)

text \<open>
  The aggregations. The requests of a round leave the clock and the configuration as they
  are, so the result of a round is stored at the time of the call, for \<open>cacheTimeout\<close>
  seconds.
\<close>

lemma standard_keeps:
  "clock (snd (standard a w s node port) t) = clock t \<and>
   cacheTimeout (snd (standard a w s node port) t) = cacheTimeout t"
  by (cases a)
     (auto simp: command_defs Let_def sent_def Self_set_def split: cval.splits sum.splits)

lemma pool_info_keeps:
  "clock (snd (Self_getPoolNetworkInfo w s url) t) = clock t \<and>
   cacheTimeout (snd (Self_getPoolNetworkInfo w s url) t) = cacheTimeout t"
  by (auto simp: Self_getPoolNetworkInfo_def sent_def Self_set_def
      split: cval.splits sum.splits pool_body.splits option.splits)

lemma round_keeps:
  assumes "\<And>p t. p \<in> set ps \<Longrightarrow>
             clock (snd p t) = clock t \<and> cacheTimeout (snd p t) = cacheTimeout t"
  shows "clock (foldl (\<lambda>s p. snd p s) s ps) = clock s \<and>
         cacheTimeout (foldl (\<lambda>s p. snd p s) s ps) = cacheTimeout s"
  using assms
proof (induction ps arbitrary: s)
  case Nil
  show ?case by simp
next
  case (Cons p ps)
  have "clock (snd p s) = clock s \<and> cacheTimeout (snd p s) = cacheTimeout s"
    using Cons.prems [of p s] by simp
  moreover have "clock (foldl (\<lambda>s p. snd p s) (snd p s) ps) = clock (snd p s) \<and>
      cacheTimeout (foldl (\<lambda>s p. snd p s) (snd p s) ps) = cacheTimeout (snd p s)"
    using Cons.prems by (intro Cons.IH) simp
  ultimately show ?case by simp
qed

lemma seeds_round_keeps:
  "clock (foldl (\<lambda>s p. snd p s) s (map (\<lambda>n. standard a w s0 (fst n) (snd n)) ns)) = clock s \<and>
   cacheTimeout (foldl (\<lambda>s p. snd p s) s (map (\<lambda>n. standard a w s0 (fst n) (snd n)) ns)) =
     cacheTimeout s"
  by (rule round_keeps) (auto simp: standard_keeps)

lemma pools_round_keeps:
  "clock (foldl (\<lambda>s p. snd p s) s (map (\<lambda>n. Self_getPoolNetworkInfo w s0 (snd n)) ns)) = clock s \<and>
   cacheTimeout (foldl (\<lambda>s p. snd p s) s (map (\<lambda>n. Self_getPoolNetworkInfo w s0 (snd n)) ns)) =
     cacheTimeout s"
  by (rule round_keeps) (auto simp: pool_info_keeps)

lemma aggregate_hit:
  assumes "NodeCache_get (cache s) (clock s) (aggregation_key g) = Object v"
  shows "aggregate g w s = (Resolved (v\<lparr>cached := Some True\<rparr>), s)"
  using assms
  by (cases g)
     (simp_all add: Self_getGlobalHeight_def Self_getGlobalDifficulty_def
        Self_getGlobalPoolHeight_def Self_getGlobalPoolDifficulty_def Self_get_def)

lemma aggregate_miss:
  assumes miss: "NodeCache_get (cache s) (clock s) (aggregation_key g) = Undefined"
    and run: "aggregate g w s = (Resolved r, s')"
    and ok: "error r = None"
  shows "cached r = Some False \<and>
         cache s' (aggregation_key g) =
           Some \<lparr>stored = Object r, expiresAt = clock s + cacheTimeout s\<rparr> \<and>
         clock s' = clock s"
proof (cases g)
  case Agg_height
  show ?thesis
    using miss run ok seeds_round_keeps [of s Cmd_getHeight w s "seeds s"]
    unfolding Agg_height
    by (auto simp: Self_getGlobalHeight_def Self_get_def Self_set_def NodeCache_set_def
        or_default_def Let_def empty_obj_def split: promise.splits sum.splits)
next
  case Agg_difficulty
  show ?thesis
    using miss run ok seeds_round_keeps [of s Cmd_getInfo w s "seeds s"]
    unfolding Agg_difficulty
    by (auto simp: Self_getGlobalDifficulty_def Self_get_def Self_set_def NodeCache_set_def
        or_default_def Let_def empty_obj_def split: promise.splits sum.splits)
next
  case Agg_pool_height
  show ?thesis
    using miss run ok pools_round_keeps [of s w s "pools s"]
    unfolding Agg_pool_height
    by (auto simp: Self_getGlobalPoolHeight_def Self_get_def Self_set_def NodeCache_set_def
        or_default_def Let_def empty_obj_def split: promise.splits sum.splits)
next
  case Agg_pool_difficulty
  show ?thesis
    using miss run ok pools_round_keeps [of s w s "pools s"]
    unfolding Agg_pool_difficulty
    by (auto simp: Self_getGlobalPoolDifficulty_def Self_get_def Self_set_def NodeCache_set_def
        or_default_def Let_def empty_obj_def split: promise.splits sum.splits)
qed

text \<open>
  C5, as the code has it. The operations that tag their result read through the cache.
  Each of the five standard commands (\<open>_getInfo\<close>, \<open>_feeInfo\<close>, \<open>_getHeight\<close>,
  \<open>_getTransactions\<close>, \<open>_getPeers\<close>): when the cache holds a live object under the key of
  the call, the call resolves that object with \<open>cached: true\<close> and leaves the state as it
  is (no request is sent); when the cache holds nothing live under the key and the daemon
  answers with an object, the call sends exactly one request, resolves the reply annotated
  \<open>cached: false\<close>, and stores it under the key with expiry \<open>now + cacheTimeout\<close>; any read
  of the same key before that expiry resolves the same value with \<open>cached: true\<close>. Each of
  the four aggregations: a live object under its key is resolved with \<open>cached: true\<close> and
  the state is left as it is; on a miss, a result that is not an error payload carries
  \<open>cached: false\<close> and is stored under the key, and any read before its expiry resolves
  the same result with \<open>cached: true\<close>. The two explorer commands \<open>getTransactionPool\<close> and
  \<open>getCurrencyId\<close> read through the cache in the same way (one request on a miss, none on
  a hit, the same expiry), but resolve the object without a field \<open>cached\<close>, on a miss and
  on a hit.
\<close>

theorem cache_read_through:
  assumes key: "key = util_format node port (cache_name a)"
    and rpc: "rpc = (or_else node (defaultHost s), or_else port (defaultPort s))"
    and gkey: "gkey = aggregation_key g"
    and ekey: "ekey = util_format (fst opts) (snd opts) (explorer_cache_name e)"
  shows "(\<forall>v. NodeCache_get (cache s) (clock s) key = Object v \<longrightarrow>
            await (standard a w s node port) s = (Resolved (v\<lparr>cached := Some True\<rparr>), s)) \<and>
         (\<forall>d. NodeCache_get (cache s) (clock s) key = Undefined \<and>
              daemon w rpc (producer a) = Inr (Object d) \<longrightarrow>
            (\<exists>data s'.
               await (standard a w s node port) s = (Resolved data, s') \<and>
               cached data = Some False \<and> same_reply data d \<and>
               calls s' = calls s @ [Rpc rpc (producer a)] \<and>
               cache s' = (cache s)(key \<mapsto>
                 \<lparr>stored = Object data, expiresAt = clock s + cacheTimeout s\<rparr>) \<and>
               clock s' = clock s \<and>
               (\<forall>w' t. clock s \<le> t \<and> t < clock s + cacheTimeout s \<longrightarrow>
                  await (standard a w' (s'\<lparr>clock := t\<rparr>) node port) (s'\<lparr>clock := t\<rparr>) =
                    (Resolved (data\<lparr>cached := Some True\<rparr>), s'\<lparr>clock := t\<rparr>)))) \<and>
         (\<forall>v. NodeCache_get (cache s) (clock s) gkey = Object v \<longrightarrow>
            aggregate g w s = (Resolved (v\<lparr>cached := Some True\<rparr>), s)) \<and>
         (\<forall>r s'. NodeCache_get (cache s) (clock s) gkey = Undefined \<and>
              aggregate g w s = (Resolved r, s') \<and> error r = None \<longrightarrow>
            cached r = Some False \<and>
            cache s' gkey = Some \<lparr>stored = Object r, expiresAt = clock s + cacheTimeout s\<rparr> \<and>
            clock s' = clock s \<and>
            (\<forall>w' t. clock s \<le> t \<and> t < clock s + cacheTimeout s \<longrightarrow>
               aggregate g w' (s'\<lparr>clock := t\<rparr>) =
                 (Resolved (r\<lparr>cached := Some True\<rparr>), s'\<lparr>clock := t\<rparr>))) \<and>
         (\<forall>v. NodeCache_get (cache s) (clock s) ekey = Object v \<longrightarrow>
            await (explorer e w s opts) s = (Resolved v, s)) \<and>
         (\<forall>d. NodeCache_get (cache s) (clock s) ekey = Undefined \<and> produced e w opts = Inr d \<longrightarrow>
            (\<exists>s'.
               await (explorer e w s opts) s = (Resolved d, s') \<and>
               cached d = None \<and>
               calls s' = calls s @ [Rpc opts (explorer_producer e)] \<and>
               cache s' = (cache s)(ekey \<mapsto>
                 \<lparr>stored = Object d, expiresAt = clock s + cacheTimeout s\<rparr>) \<and>
               clock s' = clock s \<and>
               (\<forall>w' t. clock s \<le> t \<and> t < clock s + cacheTimeout s \<longrightarrow>
                  await (explorer e w' (s'\<lparr>clock := t\<rparr>) opts) (s'\<lparr>clock := t\<rparr>) =
                    (Resolved d, s'\<lparr>clock := t\<rparr>))))"
proof -
  have standard_hits: "\<forall>v. NodeCache_get (cache s) (clock s) key = Object v \<longrightarrow>
      await (standard a w s node port) s = (Resolved (v\<lparr>cached := Some True\<rparr>), s)"
    unfolding key by (intro allI impI) (rule standard_hit)
  have standard_misses: "\<forall>d. NodeCache_get (cache s) (clock s) key = Undefined \<and>
        daemon w rpc (producer a) = Inr (Object d) \<longrightarrow>
      (\<exists>data s'.
         await (standard a w s node port) s = (Resolved data, s') \<and>
         cached data = Some False \<and> same_reply data d \<and>
         calls s' = calls s @ [Rpc rpc (producer a)] \<and>
         cache s' = (cache s)(key \<mapsto>
           \<lparr>stored = Object data, expiresAt = clock s + cacheTimeout s\<rparr>) \<and>
         clock s' = clock s \<and>
         (\<forall>w' t. clock s \<le> t \<and> t < clock s + cacheTimeout s \<longrightarrow>
            await (standard a w' (s'\<lparr>clock := t\<rparr>) node port) (s'\<lparr>clock := t\<rparr>) =
              (Resolved (data\<lparr>cached := Some True\<rparr>), s'\<lparr>clock := t\<rparr>)))"
  proof (intro allI impI)
    fix d
    assume h: "NodeCache_get (cache s) (clock s) key = Undefined \<and>
               daemon w rpc (producer a) = Inr (Object d)"
    let ?s' = "\<lambda>data. s\<lparr>calls := calls s @ [Rpc rpc (producer a)],
                cache := (cache s)(key \<mapsto> \<lparr>stored = Object data, expiresAt = clock s + cacheTimeout s\<rparr>)\<rparr>"
    from h standard_miss_ok [of s node port a w d] obtain data where
      run: "await (standard a w s node port) s = (Resolved data, ?s' data)"
      and fresh: "cached data = Some False" "same_reply data d"
      unfolding key rpc by blast
    have again: "await (standard a w' ((?s' data)\<lparr>clock := t\<rparr>) node port) ((?s' data)\<lparr>clock := t\<rparr>) =
                   (Resolved (data\<lparr>cached := Some True\<rparr>), (?s' data)\<lparr>clock := t\<rparr>)"
      if "clock s \<le> t \<and> t < clock s + cacheTimeout s" for w' t
    proof (rule standard_hit)
      show "NodeCache_get (cache ((?s' data)\<lparr>clock := t\<rparr>)) (clock ((?s' data)\<lparr>clock := t\<rparr>))
              (util_format node port (cache_name a)) = Object data"
        using that by (simp add: NodeCache_get_def key)
    qed
    show "\<exists>data s'.
            await (standard a w s node port) s = (Resolved data, s') \<and>
            cached data = Some False \<and> same_reply data d \<and>
            calls s' = calls s @ [Rpc rpc (producer a)] \<and>
            cache s' = (cache s)(key \<mapsto> \<lparr>stored = Object data, expiresAt = clock s + cacheTimeout s\<rparr>) \<and>
            clock s' = clock s \<and>
            (\<forall>w' t. clock s \<le> t \<and> t < clock s + cacheTimeout s \<longrightarrow>
               await (standard a w' (s'\<lparr>clock := t\<rparr>) node port) (s'\<lparr>clock := t\<rparr>) =
                 (Resolved (data\<lparr>cached := Some True\<rparr>), s'\<lparr>clock := t\<rparr>))"
      apply (rule exI [of _ data])
      apply (rule exI [of _ "?s' data"])
      using run fresh again by simp
  qed
  have aggregate_hits: "\<forall>v. NodeCache_get (cache s) (clock s) gkey = Object v \<longrightarrow>
      aggregate g w s = (Resolved (v\<lparr>cached := Some True\<rparr>), s)"
    unfolding gkey by (intro allI impI) (rule aggregate_hit)
  have aggregate_misses: "\<forall>r s'. NodeCache_get (cache s) (clock s) gkey = Undefined \<and>
        aggregate g w s = (Resolved r, s') \<and> error r = None \<longrightarrow>
      cached r = Some False \<and>
      cache s' gkey = Some \<lparr>stored = Object r, expiresAt = clock s + cacheTimeout s\<rparr> \<and>
      clock s' = clock s \<and>
      (\<forall>w' t. clock s \<le> t \<and> t < clock s + cacheTimeout s \<longrightarrow>
         aggregate g w' (s'\<lparr>clock := t\<rparr>) =
           (Resolved (r\<lparr>cached := Some True\<rparr>), s'\<lparr>clock := t\<rparr>))"
  proof (intro allI impI)
    fix r s'
    assume h: "NodeCache_get (cache s) (clock s) gkey = Undefined \<and>
               aggregate g w s = (Resolved r, s') \<and> error r = None"
    then have stored: "cached r = Some False"
      "cache s' (aggregation_key g) =
         Some \<lparr>stored = Object r, expiresAt = clock s + cacheTimeout s\<rparr>"
      "clock s' = clock s"
      using aggregate_miss [of s g w r s'] unfolding gkey by simp_all
    have again: "aggregate g w' (s'\<lparr>clock := t\<rparr>) =
        (Resolved (r\<lparr>cached := Some True\<rparr>), s'\<lparr>clock := t\<rparr>)"
      if "clock s \<le> t \<and> t < clock s + cacheTimeout s" for w' t
    proof (rule aggregate_hit)
      show "NodeCache_get (cache (s'\<lparr>clock := t\<rparr>)) (clock (s'\<lparr>clock := t\<rparr>)) (aggregation_key g) =
          Object r"
        using that stored(2) by (simp add: NodeCache_get_def)
    qed
    show "cached r = Some False \<and>
      cache s' gkey = Some \<lparr>stored = Object r, expiresAt = clock s + cacheTimeout s\<rparr> \<and>
      clock s' = clock s \<and>
      (\<forall>w' t. clock s \<le> t \<and> t < clock s + cacheTimeout s \<longrightarrow>
         aggregate g w' (s'\<lparr>clock := t\<rparr>) =
           (Resolved (r\<lparr>cached := Some True\<rparr>), s'\<lparr>clock := t\<rparr>))"
      using stored again unfolding gkey by simp
  qed
  have explorer_hits: "\<forall>v. NodeCache_get (cache s) (clock s) ekey = Object v \<longrightarrow>
      await (explorer e w s opts) s = (Resolved v, s)"
    unfolding ekey by (intro allI impI) (rule explorer_hit)
  have explorer_misses: "\<forall>d. NodeCache_get (cache s) (clock s) ekey = Undefined \<and>
        produced e w opts = Inr d \<longrightarrow>
      (\<exists>s'.
         await (explorer e w s opts) s = (Resolved d, s') \<and>
         cached d = None \<and>
         calls s' = calls s @ [Rpc opts (explorer_producer e)] \<and>
         cache s' = (cache s)(ekey \<mapsto>
           \<lparr>stored = Object d, expiresAt = clock s + cacheTimeout s\<rparr>) \<and>
         clock s' = clock s \<and>
         (\<forall>w' t. clock s \<le> t \<and> t < clock s + cacheTimeout s \<longrightarrow>
            await (explorer e w' (s'\<lparr>clock := t\<rparr>) opts) (s'\<lparr>clock := t\<rparr>) =
              (Resolved d, s'\<lparr>clock := t\<rparr>)))"
  proof (intro allI impI)
    fix d
    assume h: "NodeCache_get (cache s) (clock s) ekey = Undefined \<and> produced e w opts = Inr d"
    let ?s' = "s\<lparr>calls := calls s @ [Rpc opts (explorer_producer e)],
                cache := (cache s)(ekey \<mapsto> \<lparr>stored = Object d, expiresAt = clock s + cacheTimeout s\<rparr>)\<rparr>"
    have run: "await (explorer e w s opts) s = (Resolved d, ?s')" and plain: "cached d = None"
      using h explorer_miss_ok [of s opts e w d] unfolding ekey by simp_all
    have again: "await (explorer e w' (?s'\<lparr>clock := t\<rparr>) opts) (?s'\<lparr>clock := t\<rparr>) =
                   (Resolved d, ?s'\<lparr>clock := t\<rparr>)"
      if "clock s \<le> t \<and> t < clock s + cacheTimeout s" for w' t
    proof (rule explorer_hit)
      show "NodeCache_get (cache (?s'\<lparr>clock := t\<rparr>)) (clock (?s'\<lparr>clock := t\<rparr>))
              (util_format (fst opts) (snd opts) (explorer_cache_name e)) = Object d"
        using that by (simp add: NodeCache_get_def ekey)
    qed
    show "\<exists>s'.
         await (explorer e w s opts) s = (Resolved d, s') \<and>
         cached d = None \<and>
         calls s' = calls s @ [Rpc opts (explorer_producer e)] \<and>
         cache s' = (cache s)(ekey \<mapsto>
           \<lparr>stored = Object d, expiresAt = clock s + cacheTimeout s\<rparr>) \<and>
         clock s' = clock s \<and>
         (\<forall>w' t. clock s \<le> t \<and> t < clock s + cacheTimeout s \<longrightarrow>
            await (explorer e w' (s'\<lparr>clock := t\<rparr>) opts) (s'\<lparr>clock := t\<rparr>) =
              (Resolved d, s'\<lparr>clock := t\<rparr>))"
      apply (rule exI [of _ "?s'"])
      using run plain again by simp
  qed
  show ?thesis
    using standard_hits standard_misses aggregate_hits aggregate_misses explorer_hits
      explorer_misses
    by (intro conjI)
qed

theorem cache_read_through_witness:
  "NodeCache_get (cache (Self no_opts 0)) (clock (Self no_opts 0))
     (util_format (PStr ''a'') (PStr ''12'') (cache_name Cmd_getHeight)) = Undefined \<and>
   daemon (network 100 100 100 100) (PStr ''a'', PStr ''12'') (producer Cmd_getHeight) =
     Inr (Object reply_100) \<and>
   await (Self_getHeight (network 100 100 100 100) (Self no_opts 0) (PStr ''a'') (PStr ''12''))
     (Self no_opts 0) = (Resolved annotated_100, after_miss) \<and>
   cached annotated_100 = Some False \<and>
   NodeCache_get (cache after_miss) (clock after_miss)
     (util_format (PStr ''a'') (PStr ''12'') (cache_name Cmd_getHeight)) = Object annotated_100 \<and>
   await (Self_getHeight all_down after_miss (PStr ''a'') (PStr ''12'')) after_miss =
     (Resolved (annotated_100\<lparr>cached := Some True\<rparr>), after_miss)"
proof -
  let ?s = "Self no_opts 0" and ?w = "network 100 100 100 100"
  let ?key = "util_format (PStr ''a'') (PStr ''12'') (cache_name Cmd_getHeight)"
  have rpc: "(PStr ''a'', PStr ''12'') =
      (or_else (PStr ''a'') (defaultHost ?s), or_else (PStr ''12'') (defaultPort ?s))"
    by (simp add: or_else_def)
  have miss: "NodeCache_get (cache ?s) (clock ?s) ?key = Undefined"
    by (simp add: NodeCache_get_def Self_def)
  have ok: "daemon ?w (PStr ''a'', PStr ''12'') (producer Cmd_getHeight) = Inr (Object reply_100)"
    by (simp add: network_def reply_100_def)
  from cache_read_through [OF refl rpc refl refl, of Cmd_getHeight ?w] miss ok
  obtain data s' where
    run: "await (standard Cmd_getHeight ?w ?s (PStr ''a'') (PStr ''12'')) ?s = (Resolved data, s')"
    and fresh: "cached data = Some False"
    by blast
  have explicit: "await (Self_getHeight ?w ?s (PStr ''a'') (PStr ''12'')) ?s =
      (Resolved annotated_100, after_miss)"
    by (simp add: Self_getHeight_def cache_defs step_defs scenario_defs reply_100_def
        annotated_100_def after_miss_def)
  have data: "data = annotated_100" using run explicit by simp
  have hit: "NodeCache_get (cache after_miss) (clock after_miss) ?key = Object annotated_100"
    by (simp add: after_miss_def NodeCache_get_def Self_def)
  have rpc': "(PStr ''a'', PStr ''12'') =
      (or_else (PStr ''a'') (defaultHost after_miss), or_else (PStr ''12'') (defaultPort after_miss))"
    by (simp add: or_else_def)
  from cache_read_through [OF refl rpc' refl refl, of Cmd_getHeight all_down] hit
  have second: "await (standard Cmd_getHeight all_down after_miss (PStr ''a'') (PStr ''12'')) after_miss =
      (Resolved (annotated_100\<lparr>cached := Some True\<rparr>), after_miss)"
    by blast
  show ?thesis using miss ok explicit fresh data hit second by simp
qed

text \<open>
  C5, as the claim states it for every operation that goes through the cache, fails on
  \<open>getCurrencyId\<close>: on a fresh \<open>Self\<close> the first call misses and resolves
  \<open>{currency_id_blob}\<close> with no field \<open>cached\<close> (not \<open>cached: false\<close>), and the call that
  follows hits the cache and resolves the same object, again with no field \<open>cached\<close> (not
  \<open>cached: true\<close>).
\<close>

theorem explorer_result_not_annotated:
  "await (getCurrencyId (network 100 100 100 100) (Self no_opts 0) default_node) (Self no_opts 0) =
     (Resolved currency_reply, after_currency) \<and>
   cached currency_reply = None \<and>
   await (getCurrencyId all_down after_currency default_node) after_currency =
     (Resolved currency_reply, after_currency)"
  by (simp add: getCurrencyId_def cache_defs step_defs scenario_defs default_node_def
      currency_reply_def after_currency_def empty_obj_def)

text \<open>
  C6, as the code has it. When the cache holds nothing live under the key and the daemon
  rejects, each of the five standard commands resolves (it does not reject) the payload
  \<open>{error, node}\<close> with the error of the daemon and the host and port that were asked,
  whereas \<open>getTransactionPool\<close> and \<open>getCurrencyId\<close> reject with the error of the daemon.
  In both cases the cache is left as it was, and the next call for the same key, at any
  later time, asks the daemon again.
\<close>

theorem producer_failure_not_cached:
  "(NodeCache_get (cache s) (clock s) (util_format node port (cache_name a)) = Undefined \<and>
    daemon w (or_else node (defaultHost s), or_else port (defaultPort s)) (producer a) = Inl err \<longrightarrow>
      await (standard a w s node port) s =
        (Resolved (empty_obj\<lparr>error := Some err,
           node_field := Some (or_else node (defaultHost s), or_else port (defaultPort s))\<rparr>),
         s\<lparr>calls := calls s @
              [Rpc (or_else node (defaultHost s), or_else port (defaultPort s)) (producer a)]\<rparr>) \<and>
      cache (snd (await (standard a w s node port) s)) = cache s \<and>
      (\<forall>w' t. clock s \<le> t \<longrightarrow>
         calls (snd (await (standard a w' (snd (await (standard a w s node port) s)\<lparr>clock := t\<rparr>) node port)
                       (snd (await (standard a w s node port) s)\<lparr>clock := t\<rparr>))) =
         calls s @
           [Rpc (or_else node (defaultHost s), or_else port (defaultPort s)) (producer a),
            Rpc (or_else node (defaultHost s), or_else port (defaultPort s)) (producer a)])) \<and>
   (NodeCache_get (cache s) (clock s) (util_format (fst opts) (snd opts) (explorer_cache_name e)) =
      Undefined \<and>
    produced e w opts = Inl err \<longrightarrow>
      await (explorer e w s opts) s =
        (Rejected err, s\<lparr>calls := calls s @ [Rpc opts (explorer_producer e)]\<rparr>) \<and>
      cache (snd (await (explorer e w s opts) s)) = cache s \<and>
      (\<forall>w' t. clock s \<le> t \<longrightarrow>
         calls (snd (await (explorer e w' (snd (await (explorer e w s opts) s)\<lparr>clock := t\<rparr>) opts)
                       (snd (await (explorer e w s opts) s)\<lparr>clock := t\<rparr>))) =
         calls s @ [Rpc opts (explorer_producer e), Rpc opts (explorer_producer e)]))"
proof (intro conjI impI)
  let ?rpc = "(or_else node (defaultHost s), or_else port (defaultPort s))"
  let ?s' = "s\<lparr>calls := calls s @ [Rpc ?rpc (producer a)]\<rparr>"
  assume h: "NodeCache_get (cache s) (clock s) (util_format node port (cache_name a)) = Undefined \<and>
             daemon w ?rpc (producer a) = Inl err"
  then have miss: "NodeCache_get (cache s) (clock s) (util_format node port (cache_name a)) = Undefined"
    and fail: "daemon w ?rpc (producer a) = Inl err" by simp_all
  show run: "await (standard a w s node port) s =
      (Resolved (empty_obj\<lparr>error := Some err, node_field := Some ?rpc\<rparr>), ?s')"
    using standard_miss_failed [OF miss fail] by simp
  show "cache (snd (await (standard a w s node port) s)) = cache s"
    unfolding run by simp
  show "\<forall>w' t. clock s \<le> t \<longrightarrow>
         calls (snd (await (standard a w' (snd (await (standard a w s node port) s)\<lparr>clock := t\<rparr>) node port)
                       (snd (await (standard a w s node port) s)\<lparr>clock := t\<rparr>))) =
         calls s @ [Rpc ?rpc (producer a), Rpc ?rpc (producer a)]"
  proof (intro allI impI)
    fix w' t
    assume t: "clock s \<le> t"
    have "NodeCache_get (cache (?s'\<lparr>clock := t\<rparr>)) (clock (?s'\<lparr>clock := t\<rparr>))
            (util_format node port (cache_name a)) = Undefined"
      using NodeCache_get_later [OF miss t] by simp
    from standard_calls_on_miss [OF this, of w']
    show "calls (snd (await (standard a w' (snd (await (standard a w s node port) s)\<lparr>clock := t\<rparr>) node port)
                       (snd (await (standard a w s node port) s)\<lparr>clock := t\<rparr>))) =
         calls s @ [Rpc ?rpc (producer a), Rpc ?rpc (producer a)]"
      unfolding run by simp
  qed
next
  let ?s' = "s\<lparr>calls := calls s @ [Rpc opts (explorer_producer e)]\<rparr>"
  assume h: "NodeCache_get (cache s) (clock s)
               (util_format (fst opts) (snd opts) (explorer_cache_name e)) = Undefined \<and>
             produced e w opts = Inl err"
  then have miss: "NodeCache_get (cache s) (clock s)
               (util_format (fst opts) (snd opts) (explorer_cache_name e)) = Undefined"
    and fail: "produced e w opts = Inl err" by simp_all
  show run: "await (explorer e w s opts) s = (Rejected err, ?s')"
    using miss fail by (rule explorer_miss_failed)
  show "cache (snd (await (explorer e w s opts) s)) = cache s"
    unfolding run by simp
  show "\<forall>w' t. clock s \<le> t \<longrightarrow>
         calls (snd (await (explorer e w' (snd (await (explorer e w s opts) s)\<lparr>clock := t\<rparr>) opts)
                       (snd (await (explorer e w s opts) s)\<lparr>clock := t\<rparr>))) =
         calls s @ [Rpc opts (explorer_producer e), Rpc opts (explorer_producer e)]"
  proof (intro allI impI)
    fix w' t
    assume t: "clock s \<le> t"
    have "NodeCache_get (cache (?s'\<lparr>clock := t\<rparr>)) (clock (?s'\<lparr>clock := t\<rparr>))
            (util_format (fst opts) (snd opts) (explorer_cache_name e)) = Undefined"
      using NodeCache_get_later [OF miss t] by simp
    from explorer_calls_on_miss [OF this, of w']
    show "calls (snd (await (explorer e w' (snd (await (explorer e w s opts) s)\<lparr>clock := t\<rparr>) opts)
                       (snd (await (explorer e w s opts) s)\<lparr>clock := t\<rparr>))) =
         calls s @ [Rpc opts (explorer_producer e), Rpc opts (explorer_producer e)]"
      unfolding run by simp
  qed
qed

theorem producer_failure_not_cached_witness:
  "NodeCache_get (cache (Self no_opts 0)) (clock (Self no_opts 0))
     (util_format PUndef PUndef (cache_name Cmd_getHeight)) = Undefined \<and>
   daemon all_down (PStr ''public.turtlenode.io'', PNum 11898) (producer Cmd_getHeight) =
     Inl (Upstream ''ETIMEDOUT'') \<and>
   await (Self_getHeight all_down (Self no_opts 0) PUndef PUndef) (Self no_opts 0) =
     (Resolved (empty_obj\<lparr>error := Some (Upstream ''ETIMEDOUT''),
        node_field := Some (PStr ''public.turtlenode.io'', PNum 11898)\<rparr>),
      (Self no_opts 0)\<lparr>calls := [Rpc (PStr ''public.turtlenode.io'', PNum 11898) ''getHeight'']\<rparr>) \<and>
   cache (snd (await (Self_getHeight all_down (Self no_opts 0) PUndef PUndef) (Self no_opts 0))) =
     Map.empty \<and>
   NodeCache_get (cache (Self no_opts 0)) (clock (Self no_opts 0))
     (util_format (fst default_node) (snd default_node) (explorer_cache_name Cmd_getCurrencyId)) =
     Undefined \<and>
   produced Cmd_getCurrencyId all_down default_node = Inl (Upstream ''ETIMEDOUT'') \<and>
   await (getCurrencyId all_down (Self no_opts 0) default_node) (Self no_opts 0) =
     (Rejected (Upstream ''ETIMEDOUT''),
      (Self no_opts 0)\<lparr>calls := [Rpc default_node ''getCurrencyId'']\<rparr>) \<and>
   cache (snd (await (getCurrencyId all_down (Self no_opts 0) default_node) (Self no_opts 0))) =
     Map.empty"
proof -
  let ?s = "Self no_opts 0"
  have rpc: "(or_else PUndef (defaultHost ?s), or_else PUndef (defaultPort ?s)) =
      (PStr ''public.turtlenode.io'', PNum 11898)"
    by (simp add: or_else_def Self_def no_opts_def or_default_def)
  have miss: "NodeCache_get (cache ?s) (clock ?s)
      (util_format PUndef PUndef (cache_name Cmd_getHeight)) = Undefined"
    by (simp add: NodeCache_get_def Self_def)
  have fail: "daemon all_down (PStr ''public.turtlenode.io'', PNum 11898) (producer Cmd_getHeight) =
      Inl (Upstream ''ETIMEDOUT'')"
    by (simp add: all_down_def)
  have miss': "NodeCache_get (cache ?s) (clock ?s)
      (util_format (fst default_node) (snd default_node) (explorer_cache_name Cmd_getCurrencyId)) =
      Undefined"
    by (simp add: NodeCache_get_def Self_def)
  have fail': "produced Cmd_getCurrencyId all_down default_node = Inl (Upstream ''ETIMEDOUT'')"
    by (simp add: all_down_def)
  let ?node = "(PStr ''public.turtlenode.io'', PNum 11898)"
  from producer_failure_not_cached
    [of ?s PUndef PUndef Cmd_getHeight all_down "Upstream ''ETIMEDOUT''" default_node
      Cmd_getCurrencyId, unfolded rpc]
    miss fail miss' fail'
  have std: "await (standard Cmd_getHeight all_down ?s PUndef PUndef) ?s =
        (Resolved (empty_obj\<lparr>error := Some (Upstream ''ETIMEDOUT''), node_field := Some ?node\<rparr>),
         ?s\<lparr>calls := calls ?s @ [Rpc ?node (producer Cmd_getHeight)]\<rparr>)"
    and std_cache: "cache (snd (await (standard Cmd_getHeight all_down ?s PUndef PUndef) ?s)) = cache ?s"
    and expl: "await (explorer Cmd_getCurrencyId all_down ?s default_node) ?s =
        (Rejected (Upstream ''ETIMEDOUT''),
         ?s\<lparr>calls := calls ?s @ [Rpc default_node (explorer_producer Cmd_getCurrencyId)]\<rparr>)"
    and expl_cache: "cache (snd (await (explorer Cmd_getCurrencyId all_down ?s default_node) ?s)) =
        cache ?s"
    by blast+
  have fresh: "cache ?s = Map.empty" "calls ?s = []" by (simp_all add: Self_def)
  show ?thesis
    using std std_cache expl expl_cache miss fail miss' fail' by (simp add: fresh)
qed

text \<open>
  C6, as the claim states it for every single-node operation that goes through the
  cache, fails on \<open>getCurrencyId\<close> and \<open>getTransactionPool\<close>: when the daemon does not
  answer, they reject with its error instead of resolving an error payload.
\<close>

theorem explorer_failure_rejects:
  "await (getCurrencyId all_down (Self no_opts 0) default_node) (Self no_opts 0) =
     (Rejected (Upstream ''ETIMEDOUT''),
      (Self no_opts 0)\<lparr>calls := [Rpc default_node ''getCurrencyId'']\<rparr>) \<and>
   await (getTransactionPool all_down (Self no_opts 0) default_node) (Self no_opts 0) =
     (Rejected (Upstream ''ETIMEDOUT''),
      (Self no_opts 0)\<lparr>calls := [Rpc default_node ''getTransactionPool'']\<rparr>)"
  by (simp add: explorer_defs cache_defs step_defs scenario_defs default_node_def)

text \<open>
  C10. The cache key is the concatenation of node, port and method as \<open>%s\<close> prints them,
  without a separator: for strings \<open>n\<close>, \<open>p\<close> and \<open>m\<close> it is \<open>n @ p @ m\<close>, \<open>_set\<close> writes the
  entry of that key and \<open>_get\<close> reads it. The key is therefore not injective: node \<open>a\<close>
  with port \<open>12\<close> and node \<open>a1\<close> with port \<open>2\<close> have the key \<open>a12\<close> followed by the method,
  for every method, and an object stored by \<open>_set\<close> for the first is what \<open>_get\<close> returns
  for the second (while the entry is live).
\<close>

theorem cache_key_collision:
  "util_format node port method = format_s node @ format_s port @ method \<and>
   util_format (PStr n) (PStr p) method = n @ p @ method \<and>
   cache (Self_set s node port method data ttl) =
     (cache s)(format_s node @ format_s port @ method \<mapsto>
        \<lparr>stored = data, expiresAt = clock s + or_default ttl (cacheTimeout s)\<rparr>) \<and>
   Self_get s node port method =
     (if truthy (NodeCache_get (cache s) (clock s) (format_s node @ format_s port @ method))
      then NodeCache_get (cache s) (clock s) (format_s node @ format_s port @ method)
      else JFalse) \<and>
   util_format (PStr ''a'') (PStr ''12'') method = ''a12'' @ method \<and>
   util_format (PStr ''a1'') (PStr ''2'') method = ''a12'' @ method \<and>
   (PStr ''a'', PStr ''12'', method) \<noteq> (PStr ''a1'', PStr ''2'', method) \<and>
   \<not> inj (\<lambda>(node, port, method). util_format node port method) \<and>
   (0 < or_default ttl (cacheTimeout s) \<longrightarrow>
      Self_get (Self_set s (PStr ''a'') (PStr ''12'') method (Object v) ttl)
        (PStr ''a1'') (PStr ''2'') method = Object v)"
proof -
  have key: "util_format node port method = format_s node @ format_s port @ method"
    "util_format (PStr n) (PStr p) method = n @ p @ method"
    "util_format (PStr ''a'') (PStr ''12'') method = ''a12'' @ method"
    "util_format (PStr ''a1'') (PStr ''2'') method = ''a12'' @ method"
    by (simp_all add: util_format_def)
  have writes: "cache (Self_set s node port method data ttl) =
     (cache s)(format_s node @ format_s port @ method \<mapsto>
        \<lparr>stored = data, expiresAt = clock s + or_default ttl (cacheTimeout s)\<rparr>)"
    by (simp add: Self_set_def NodeCache_set_def util_format_def Let_def)
  have reads: "Self_get s node port method =
     (if truthy (NodeCache_get (cache s) (clock s) (format_s node @ format_s port @ method))
      then NodeCache_get (cache s) (clock s) (format_s node @ format_s port @ method)
      else JFalse)"
    by (simp add: Self_get_def util_format_def Let_def)
  have ne: "(PStr ''a'', PStr ''12'', method) \<noteq> (PStr ''a1'', PStr ''2'', method)" by simp
  have not_inj: "\<not> inj (\<lambda>(node, port, method). util_format node port method)"
  proof
    assume "inj (\<lambda>(node, port, method). util_format node port method)"
    from injD [OF this, of "(PStr ''a'', PStr ''12'', method)" "(PStr ''a1'', PStr ''2'', method)"]
    have "(PStr ''a'', PStr ''12'', method) = (PStr ''a1'', PStr ''2'', method)"
      using key(3,4) by simp
    with ne show False by contradiction
  qed
  have crossed: "0 < or_default ttl (cacheTimeout s) \<longrightarrow>
      Self_get (Self_set s (PStr ''a'') (PStr ''12'') method (Object v) ttl)
        (PStr ''a1'') (PStr ''2'') method = Object v"
    by (simp add: Self_get_def Self_set_def NodeCache_get_def NodeCache_set_def
        util_format_def Let_def)
  show ?thesis
    using key writes reads ne not_inj crossed by (intro conjI)
qed

theorem cache_key_collision_witness:
  "0 < or_default None (cacheTimeout (Self no_opts 0)) \<and>
   util_format (PStr ''a'') (PStr ''12'') ''getheight'' = ''a12getheight'' \<and>
   util_format (PStr ''a1'') (PStr ''2'') ''getheight'' = ''a12getheight'' \<and>
   Self_get (Self_set (Self no_opts 0) (PStr ''a'') (PStr ''12'') ''getheight'' (Object reply_100) None)
     (PStr ''a1'') (PStr ''2'') ''getheight'' = Object reply_100"
proof -
  have h: "0 < or_default None (cacheTimeout (Self no_opts 0))"
    by (simp add: or_default_def Self_def no_opts_def)
  from cache_key_collision
    [of _ _ "''getheight''" _ _ "Self no_opts 0" _ None reply_100]
    h
  show ?thesis by simp
qed


section \<open>Block count\<close>

lemma getBlockCount_rule:
  "\<exists>data s1.
     await (Self_getHeight w s PUndef PUndef) s = (Resolved data, s1) \<and>
     fst (getBlockCount w s opts) =
       (let live = (case daemon_getBlockCount w opts of
                      Inr n \<Rightarrow> Resolved (empty_obj\<lparr>count := Some n, status := Some ''OK''\<rparr>)
                    | Inl e \<Rightarrow> Rejected (Error ''Failure encountered''))
        in case blockCache_getBlockCount w of
             Inr (Some block) \<Rightarrow>
               if deviates (network_height data) (count block) (maxDeviance s) then live
               else Resolved block
           | _ \<Rightarrow> live)"
proof -
  obtain p s1 where a: "await (Self_getHeight w s PUndef PUndef) s = (p, s1)"
    by (cases "await (Self_getHeight w s PUndef PUndef) s")
  have "\<exists>data. p = Resolved data"
    using a by (auto simp: Self_getHeight_def await_def Let_def
        split: cval.splits sum.splits)
  then obtain data where p: "p = Resolved data" ..
  have md: "maxDeviance s1 = maxDeviance s"
    using a by (auto simp: Self_getHeight_def await_def Let_def sent_def Self_set_def
        split: cval.splits sum.splits)
  show ?thesis
    apply (rule exI [of _ data])
    apply (rule exI [of _ s1])
    using a p md
    by (cases opts)
       (simp add: getBlockCount_def getBlockCount_live_def TurtleCoind_def sent_def Let_def
          split: sum.splits option.splits)
qed

lemmas aggregate_defs = Self_getGlobalPoolHeight_def Self_getGlobalPoolDifficulty_def
  Self_getGlobalHeight_def Self_getPoolNetworkInfo_def usable_def List.map_filter_def
  maxValue_def minValue_def voteValue_def tallies_of_def avgValue_def medValue_def

lemma getBlockCount_mirror_accepted:
  "fst (getBlockCount (network 110 103 100 111) (Self no_opts 0)
          (PStr ''public.turtlenode.io'', PNum 11898)) =
     Resolved (empty_obj\<lparr>count := Some 100\<rparr>)"
  by (simp add: getBlockCount_def getBlockCount_live_def deviates_def command_defs cache_defs
      step_defs scenario_defs empty_obj_def)

lemma getBlockCount_mirror_rejected:
  "fst (getBlockCount (network 110 110 100 111) (Self no_opts 0)
          (PStr ''public.turtlenode.io'', PNum 11898)) =
     Resolved (empty_obj\<lparr>count := Some 111, status := Some ''OK''\<rparr>)"
  by (simp add: getBlockCount_def getBlockCount_live_def deviates_def command_defs cache_defs
      step_defs scenario_defs empty_obj_def)

lemma consensus_110:
  "fst (Self_getGlobalHeight (network 110 103 100 111) (Self no_opts 0)) =
     Resolved (empty_obj\<lparr>agg_max := Some 110, agg_min := Some 110, avg := Some (Num 110),
       med := Some (Num 110), cnt := Some 6, ans := Some 6, con := Some 1, win := Some 110,
       cached := Some False\<rparr>)"
  by (simp add: aggregate_defs command_defs cache_defs step_defs scenario_defs empty_obj_def)

text \<open>
  C2, as the code has it. The network height that \<open>getBlockCount\<close> compares with the
  mirror is the field \<open>network_height\<close> of the payload of \<open>this._getHeight()\<close>, the standard
  command on the default node (which always resolves). The mirror's block is the result
  unless the mirror does not deliver a block or \<open>|networkHeight - count| > maxDeviance\<close>;
  then the result is that of the live \<open>getBlockCount\<close> of the given node: \<open>{count,
  status: 'OK'}\<close>, or the rejection \<open>Failure encountered\<close>. The default of \<open>maxDeviance\<close> is
  5; with a mirror count of 100, a network height of 110 rejects the mirror and one of
  103 accepts it.
\<close>

theorem getBlockCount_staleness_check:
  "(\<exists>data s1.
      await (Self_getHeight w s PUndef PUndef) s = (Resolved data, s1) \<and>
      fst (getBlockCount w s opts) =
        (let live = (case daemon_getBlockCount w opts of
                       Inr n \<Rightarrow> Resolved (empty_obj\<lparr>count := Some n, status := Some ''OK''\<rparr>)
                     | Inl e \<Rightarrow> Rejected (Error ''Failure encountered''))
         in case blockCache_getBlockCount w of
              Inr (Some block) \<Rightarrow>
                if deviates (network_height data) (count block) (maxDeviance s) then live
                else Resolved block
            | _ \<Rightarrow> live)) \<and>
   deviates (Some n) (Some c) d = (d < \<bar>n - c\<bar>) \<and>
   maxDeviance (Self no_opts now) = 5 \<and>
   fst (getBlockCount (network 110 110 100 111) (Self no_opts 0)
          (PStr ''public.turtlenode.io'', PNum 11898)) =
     Resolved (empty_obj\<lparr>count := Some 111, status := Some ''OK''\<rparr>) \<and>
   fst (getBlockCount (network 110 103 100 111) (Self no_opts 0)
          (PStr ''public.turtlenode.io'', PNum 11898)) =
     Resolved (empty_obj\<lparr>count := Some 100\<rparr>)"
  using getBlockCount_rule [of w s opts] getBlockCount_mirror_rejected
    getBlockCount_mirror_accepted
  by (simp add: deviates_def Self_def no_opts_def or_default_def)

text \<open>
  C2, as the claim states it, fails: when every seed reports the height 110, the
  aggregation's consensus is 110 and differs from the mirror's count 100 by more than
  \<open>maxDeviance = 5\<close>; the default node reports the network height 103, and \<open>getBlockCount\<close>
  returns the mirror's block.
\<close>

theorem getBlockCount_ignores_consensus:
  "fst (Self_getGlobalHeight (network 110 103 100 111) (Self no_opts 0)) =
     Resolved (empty_obj\<lparr>agg_max := Some 110, agg_min := Some 110, avg := Some (Num 110),
       med := Some (Num 110), cnt := Some 6, ans := Some 6, con := Some 1, win := Some 110,
       cached := Some False\<rparr>) \<and>
   maxDeviance (Self no_opts 0) < \<bar>110 - 100\<bar> \<and>
   fst (getBlockCount (network 110 103 100 111) (Self no_opts 0)
          (PStr ''public.turtlenode.io'', PNum 11898)) =
     Resolved (empty_obj\<lparr>count := Some 100\<rparr>)"
  using consensus_110 getBlockCount_mirror_accepted
  by (simp add: Self_def no_opts_def or_default_def)

section \<open>The aggregation\<close>

text \<open>
  The requests of a round all resolve, so \<open>Promise.all\<close> resolves to their values. When
  none of them carries a usable height, the sample is empty and the round resolves the
  error payload of the \<open>TypeError\<close> that \<open>maxValue\<close> throws.
\<close>

lemma standard_resolves: "\<exists>v. fst (standard a w s node port) = Resolved v"
  by (cases a) (auto simp: command_defs Let_def split: cval.splits sum.splits)

lemma Promise_all_resolved:
  "(\<And>p. p \<in> set ps \<Longrightarrow> \<exists>v. p = Resolved v) \<Longrightarrow>
   \<exists>vs. Promise_all ps = Resolved vs \<and> length vs = length ps"
proof (induction ps)
  case Nil
  show ?case by simp
next
  case (Cons p ps)
  obtain v where p: "p = Resolved v" using Cons.prems [of p] by auto
  obtain vs where "Promise_all ps = Resolved vs" "length vs = length ps"
    using Cons.IH Cons.prems by auto
  then show ?case by (simp add: p)
qed

lemma length_map_filter_le: "length (List.map_filter f xs) \<le> length xs"
  by (simp add: List.map_filter_def)

lemma pool_info_resolves: "\<exists>v. fst (Self_getPoolNetworkInfo w s url) = Resolved v"
  by (auto simp: Self_getPoolNetworkInfo_def split: cval.splits sum.splits pool_body.splits option.splits)

lemma Promise_all_values:
  "Promise_all ps = Resolved vs \<Longrightarrow> ps = map Resolved vs"
proof (induction ps arbitrary: vs)
  case Nil
  then show ?case by simp
next
  case (Cons p ps)
  then show ?case by (cases p) (auto split: promise.splits)
qed

lemma map_filter_none:
  "(\<And>x. x \<in> set xs \<Longrightarrow> f x = None) \<Longrightarrow> List.map_filter f xs = []"
  by (induction xs) (simp_all add: List.map_filter_def)

lemma network_aggregation_empty_sample:
  assumes miss: "Self_get s (PStr ''network'') (PStr ''network'') ''globalheight'' = JFalse"
    and none: "\<And>n r. n \<in> set (seeds s) \<Longrightarrow> fst (Self_getHeight w s (fst n) (snd n)) = Resolved r \<Longrightarrow>
                 usable (height r) = None"
  shows "fst (Self_getGlobalHeight w s) = Resolved (empty_obj\<lparr>error := Some TypeError\<rparr>)"
proof -
  let ?promises = "map (\<lambda>n. Self_getHeight w s (fst n) (snd n)) (seeds s)"
  have r: "\<exists>v. p = Resolved v" if "p \<in> set (map fst ?promises)" for p
    using that standard_resolves [of Cmd_getHeight w s] by auto
  have "\<exists>vs. Promise_all (map fst ?promises) = Resolved vs \<and>
          length vs = length (map fst ?promises)"
    by (rule Promise_all_resolved) (rule r)
  then obtain results where all: "Promise_all (map fst ?promises) = Resolved results" by auto
  have vals: "map fst ?promises = map Resolved results"
    using all by (rule Promise_all_values)
  have "usable (height x) = None" if "x \<in> set results" for x
  proof -
    have "Resolved x \<in> set (map fst ?promises)" using that vals by simp
    then obtain n where "n \<in> set (seeds s)" "fst (Self_getHeight w s (fst n) (snd n)) = Resolved x"
      by auto
    then show ?thesis by (rule none)
  qed
  then have empty: "List.map_filter (\<lambda>r. usable (height r)) results = []"
    by (rule map_filter_none)
  have "Promise_all (map (fst \<circ> (\<lambda>n. Self_getHeight w s (fst n) (snd n))) (seeds s)) =
      Resolved results"
    using all by simp
  then show ?thesis
    by (simp add: Self_getGlobalHeight_def miss Let_def empty maxValue_def)
qed


text \<open>
  C4. An empty sample does not give the vote \<open>{value: 0, confidence: 1}\<close> to the caller:
  \<open>voteValue\<close> returns it, but \<open>maxValue\<close> then throws, and the aggregation resolves the
  error payload \<open>{error: TypeError}\<close>. This is the result of the pool aggregation of a
  freshly constructed \<open>Self\<close> (its pool list is empty), whatever the environment, and of
  the network aggregation when no seed answers.
\<close>

theorem empty_sample_resolves_error:
  "voteValue [] = \<lparr>vote_value = 0, confidence = 1\<rparr> \<and>
   maxValue [] = Inl TypeError \<and>
   fst (Self_getGlobalPoolHeight w (Self no_opts now)) =
     Resolved (empty_obj\<lparr>error := Some TypeError\<rparr>) \<and>
   fst (Self_getGlobalHeight all_down (Self no_opts now)) =
     Resolved (empty_obj\<lparr>error := Some TypeError\<rparr>)"
  by (simp add: aggregate_defs command_defs cache_defs step_defs scenario_defs empty_obj_def)

text \<open>
  The network aggregations count both: a result that is not an error payload has \<open>cnt\<close>
  equal to the number of seeds asked and \<open>ans\<close> at most \<open>cnt\<close>. The pool aggregations
  count the usable values only, as \<open>cnt\<close>, and set no \<open>ans\<close>.
\<close>

lemma network_aggregation_counts:
  assumes miss: "Self_get s (PStr ''network'') (PStr ''network'') ''globalheight'' = JFalse"
    and res: "fst (Self_getGlobalHeight w s) = Resolved r"
    and ok: "error r = None"
  shows "cnt r = Some (length (seeds s)) \<and> (\<exists>a. ans r = Some a \<and> a \<le> length (seeds s))"
proof -
  let ?promises = "map (\<lambda>n. Self_getHeight w s (fst n) (snd n)) (seeds s)"
  have r: "\<exists>v. p = Resolved v" if "p \<in> set (map fst ?promises)" for p
    using that standard_resolves [of Cmd_getHeight w s] by auto
  have "\<exists>vs. Promise_all (map fst ?promises) = Resolved vs \<and>
          length vs = length (map fst ?promises)"
    by (rule Promise_all_resolved) (rule r)
  then obtain results where all: "Promise_all (map fst ?promises) = Resolved results"
    and len: "length results = length (seeds s)" by auto
  let ?heights = "List.map_filter (\<lambda>r. usable (height r)) results"
  have "length ?heights \<le> length (seeds s)"
    using length_map_filter_le [of _ results] len by simp
  moreover have "Promise_all (map (fst \<circ> (\<lambda>n. Self_getHeight w s (fst n) (snd n))) (seeds s)) =
      Resolved results"
    using all by simp
  ultimately show ?thesis
    using res ok len
    by (auto simp: Self_getGlobalHeight_def miss Let_def empty_obj_def split: sum.splits)
qed

lemma pool_aggregation_counts:
  assumes miss: "Self_get s (PStr ''pool'') (PStr ''pool'') ''globalpoolheight'' = JFalse"
    and res: "fst (Self_getGlobalPoolHeight w s) = Resolved r"
    and ok: "error r = None"
  shows "\<exists>results.
           map (\<lambda>p. fst (Self_getPoolNetworkInfo w s (snd p))) (pools s) = map Resolved results \<and>
           cnt r = Some (length (List.map_filter (\<lambda>r. usable (height r)) results)) \<and>
           ans r = None"
proof -
  let ?promises = "map (\<lambda>n. Self_getPoolNetworkInfo w s (snd n)) (pools s)"
  have r: "\<exists>v. p = Resolved v" if "p \<in> set (map fst ?promises)" for p
    using that pool_info_resolves [of w s] by auto
  have "\<exists>vs. Promise_all (map fst ?promises) = Resolved vs \<and>
          length vs = length (map fst ?promises)"
    by (rule Promise_all_resolved) (rule r)
  then obtain results where all: "Promise_all (map fst ?promises) = Resolved results" by auto
  have vals: "map (\<lambda>p. fst (Self_getPoolNetworkInfo w s (snd p))) (pools s) = map Resolved results"
    using Promise_all_values [OF all] by (simp add: comp_def)
  have all': "Promise_all (map (fst \<circ> (\<lambda>n. Self_getPoolNetworkInfo w s (snd n))) (pools s)) =
      Resolved results"
    using all by simp
  have "cnt r = Some (length (List.map_filter (\<lambda>r. usable (height r)) results)) \<and> ans r = None"
    using res ok all'
    by (auto simp: Self_getGlobalPoolHeight_def miss Let_def empty_obj_def split: sum.splits)
  with vals show ?thesis by blast
qed

text \<open>
  C8. With two pools of which one answers, the pool aggregations resolve a result whose
  \<open>cnt\<close> is 1, the number of usable values (two requests were attempted), and which has
  no field \<open>ans\<close>.
\<close>

theorem pool_aggregation_counts_samples:
  "length two_pools = 2 \<and>
   fst (Self_getGlobalPoolHeight one_pool_up (Self (no_opts\<lparr>opts_pools := Some two_pools\<rparr>) now)) =
     Resolved (empty_obj\<lparr>agg_max := Some 100, agg_min := Some 100, avg := Some (Num 100),
       med := Some (Num 100), cnt := Some 1, con := Some 1, win := Some 100,
       cached := Some False\<rparr>) \<and>
   fst (Self_getGlobalPoolDifficulty one_pool_up (Self (no_opts\<lparr>opts_pools := Some two_pools\<rparr>) now)) =
     Resolved (empty_obj\<lparr>agg_max := Some 5000, agg_min := Some 5000, avg := Some (Num 5000),
       med := Some (Num 5000), cnt := Some 1, con := Some 1, win := Some 5000,
       cached := Some False\<rparr>)"
  by (simp add: aggregate_defs cache_defs step_defs scenario_defs empty_obj_def)

section \<open>The routes\<close>

text \<open>
  The guards of the handlers. The handler of a route with a path parameter answers 400
  and invokes nothing when the parameter is absent or empty, with two exceptions: the
  guard of \<open>GET /transactions/:paymentid\<close> answers 500, and the handler of
  \<open>POST /:node/json_rpc\<close> has no guard. Which requests reach a handler, and with which
  parameters, is decided by the routing framework.
\<close>

lemma guarded_routes:
  "r \<noteq> Transactions_paymentid \<Longrightarrow> r \<noteq> Post_node_json_rpc \<Longrightarrow>
   x \<in> set (path_parameters r) \<Longrightarrow> missing (ps x) \<Longrightarrow> handler s r ps = Status 400"
  by (cases r) auto

lemma other_guards:
  "handler s Transactions_paymentid Map.empty = Status 500 \<and>
   handler s Transactions_paymentid [''paymentid'' \<mapsto> ''''] = Status 500 \<and>
   handler s Post_node_json_rpc Map.empty = Invoke (Op_processJsonRPC PUndef PUndef)"
  by (simp add: missing_def to_param_def)

subsection \<open>The Number value of an integer and its string\<close>

lemma bit_length_le: "m < 2 ^ k \<Longrightarrow> bit_length m \<le> k"
proof (induction k arbitrary: m)
  case 0
  then show ?case by (simp add: bit_length.simps)
next
  case (Suc k)
  show ?case
  proof (cases "m = 0")
    case True
    then show ?thesis by (simp add: bit_length.simps)
  next
    case False
    have "m div 2 < 2 ^ k" using Suc.prems by simp
    then have "bit_length (m div 2) \<le> k" by (rule Suc.IH)
    then show ?thesis using False by (subst bit_length.simps) simp
  qed
qed

text \<open>An integer below \<open>2 ^ 53\<close> is a double.\<close>

lemma to_double_exact: "m < 2 ^ 53 \<Longrightarrow> to_double m = Some m"
proof -
  assume m: "m < 2 ^ 53"
  then have "bit_length m - 53 = 0" using bit_length_le [of m 53] by simp
  moreover have "m < 2 ^ 1024"
  proof -
    have "(2::nat) ^ 53 \<le> 2 ^ 1024" by (rule power_increasing) simp_all
    with m show ?thesis by (rule less_le_trans)
  qed
  ultimately show ?thesis by (simp add: to_double_def)
qed

lemma decimal_small: "n < 10 \<Longrightarrow> decimal n = [digit_char n]"
  by (simp add: decimal.simps)

lemma decimal_step: "0 < m \<Longrightarrow> d < 10 \<Longrightarrow> decimal (m * 10 + d) = decimal m @ [digit_char d]"
  by (subst decimal.simps) simp

lemma decimal_zero: "decimal 0 = ''0''"
  by (simp add: decimal_small digit_char_def)

lemma decimal_times_power:
  "0 < s \<Longrightarrow> decimal (s * 10 ^ j) = decimal s @ replicate j (CHR ''0'')"
proof (induction j)
  case 0
  show ?case by simp
next
  case (Suc j)
  have "decimal (s * 10 ^ j * 10 + 0) = decimal (s * 10 ^ j) @ [digit_char 0]"
    using Suc.prems by (intro decimal_step) simp_all
  moreover have "s * 10 ^ Suc j = s * 10 ^ j * 10 + 0" by simp
  ultimately have "decimal (s * 10 ^ Suc j) = decimal (s * 10 ^ j) @ [digit_char 0]"
    by (simp only:)
  also have "\<dots> = decimal s @ replicate j (CHR ''0'') @ [CHR ''0'']"
    using Suc by (simp add: digit_char_def)
  also have "\<dots> = decimal s @ replicate (Suc j) (CHR ''0'')"
    by (simp only: replicate_append_same replicate.simps)
  finally show ?case .
qed

lemma length_decimal_le: "n < 10 ^ k \<Longrightarrow> 0 < k \<Longrightarrow> length (decimal n) \<le> k"
proof (induction k arbitrary: n)
  case 0
  then show ?case by simp
next
  case (Suc k)
  show ?case
  proof (cases "n < 10")
    case True
    then show ?thesis by (simp add: decimal_small)
  next
    case False
    then have k: "0 < k" using Suc.prems(1) by (cases k) simp_all
    have "n div 10 < 10 ^ k" using Suc.prems(1) by (simp add: less_mult_imp_div_less mult.commute)
    then have "length (decimal (n div 10)) \<le> k" using k by (rule Suc.IH)
    moreover have "decimal n = decimal (n div 10) @ [digit_char (n mod 10)]"
      using False by (subst decimal.simps) simp
    ultimately show ?thesis by simp
  qed
qed

lemma decimal_bounds:
  "n < 10 ^ length (decimal n) \<and> (0 < n \<longrightarrow> 10 ^ (length (decimal n) - 1) \<le> n)"
proof (induction n rule: decimal.induct)
  case (1 n)
  show ?case
  proof (cases "n < 10")
    case True
    then show ?thesis by (auto simp: decimal_small)
  next
    case False
    let ?m = "n div 10"
    have d: "decimal n = decimal ?m @ [digit_char (n mod 10)]"
      using False by (subst decimal.simps) simp
    have m: "0 < ?m" using False by simp
    have ih: "?m < 10 ^ length (decimal ?m)" "10 ^ (length (decimal ?m) - 1) \<le> ?m"
      using 1 False m by simp_all
    have pos: "0 < length (decimal ?m)"
      by (subst decimal.simps) simp
    have up: "n < 10 ^ length (decimal n)"
    proof -
      have "n < (?m + 1) * 10" by presburger
      also have "\<dots> \<le> 10 ^ length (decimal ?m) * 10" using ih(1) by simp
      finally show ?thesis by (simp add: d)
    qed
    have lo: "10 ^ (length (decimal n) - 1) \<le> n"
    proof -
      have "10 ^ (length (decimal ?m) - 1) * 10 \<le> ?m * 10" using ih(2) by simp
      also have "\<dots> \<le> n" by presburger
      finally have "10 ^ (length (decimal ?m) - 1) * 10 \<le> n" .
      moreover have "(10::nat) ^ (length (decimal ?m) - 1) * 10 = 10 ^ length (decimal ?m)"
        using pos by (cases "length (decimal ?m)") simp_all
      ultimately show ?thesis by (simp add: d)
    qed
    show ?thesis using up lo by simp
  qed
qed

lemma closer_cases: "closer x k a b = a \<or> closer x k a b = b"
  by (simp add: closer_def)

lemma foldl_closer_mem: "foldl (closer x k) a bs \<in> set (a # bs)"
proof (induction bs arbitrary: a)
  case Nil
  show ?case by simp
next
  case (Cons b bs)
  have "foldl (closer x k) (closer x k a b) bs \<in> set (closer x k a b # bs)" by (rule Cons.IH)
  then show ?case using closer_cases [of x k a b] by auto
qed

text \<open>
  Below \<open>10 ^ 15\<close> every digit string that is tried denotes an integer below \<open>2 ^ 53\<close>, so
  it reads back as \<open>x\<close> only if it denotes \<open>x\<close>: such a number prints as its decimal
  digits.
\<close>

lemma digit_strings_exact:
  assumes x: "x < 10 ^ 15" and mem: "(s, n) \<in> set (digit_strings x k)"
  shows "s * 10 ^ (n - k) = x \<and> 0 < s \<and> n \<le> 16"
proof -
  let ?d = "length (decimal x)"
  let ?lo = "x div 10 ^ (?d - k)"
  have d: "?d \<le> 15" using x by (intro length_decimal_le) simp_all
  have "(s, n) \<in> set [(?lo, ?d), (?lo + 1, ?d), (10 ^ (k - 1), ?d + 1)] \<and>
      (10 ^ (k - 1) \<le> s \<and> s < 10 ^ k \<and> k \<le> n \<and> to_double (s * 10 ^ (n - k)) = Some x)"
    using mem unfolding digit_strings_def Let_def set_filter by simp
  then have p: "10 ^ (k - 1) \<le> s" "s < 10 ^ k" "k \<le> n" "to_double (s * 10 ^ (n - k)) = Some x"
    and c: "(s, n) = (?lo, ?d) \<or> (s, n) = (?lo + 1, ?d) \<or> (s, n) = (10 ^ (k - 1), ?d + 1)"
    by auto
  have pw: "(10::nat) ^ j \<le> 10 ^ 15" if "j \<le> 15" for j
    using that by (intro power_increasing) simp_all
  have small: "s * 10 ^ (n - k) < 2 ^ 53"
  proof -
    from c consider "(s, n) = (?lo, ?d)" | "(s, n) = (?lo + 1, ?d)" | "(s, n) = (10 ^ (k - 1), ?d + 1)"
      by blast
    then show ?thesis
    proof cases
      case 1
      then have "s * 10 ^ (n - k) \<le> x" by simp
      with x show ?thesis by simp
    next
      case 2
      then have "s * 10 ^ (n - k) = ?lo * 10 ^ (?d - k) + 10 ^ (?d - k)" by (simp add: algebra_simps)
      moreover have "?lo * 10 ^ (?d - k) \<le> x" by simp
      moreover have "(10::nat) ^ (?d - k) \<le> 10 ^ 15" using d by (intro pw) simp
      ultimately have "s * 10 ^ (n - k) \<le> x + 10 ^ 15" by linarith
      with x show ?thesis by simp
    next
      case 3
      then have "0 < k" using p(2) by (cases k) simp_all
      have "s * 10 ^ (n - k) = 10 ^ (k - 1) * 10 ^ (?d + 1 - k)" using 3 by simp
      also have "\<dots> = 10 ^ ((k - 1) + (?d + 1 - k))" by (simp only: power_add)
      also have "(k - 1) + (?d + 1 - k) = ?d" using \<open>0 < k\<close> p(3) 3 by simp
      finally have "s * 10 ^ (n - k) = 10 ^ ?d" .
      moreover have "(10::nat) ^ ?d \<le> 10 ^ 15" using d by (rule pw)
      ultimately show ?thesis by simp
    qed
  qed
  have "s * 10 ^ (n - k) = x" using p(4) to_double_exact [OF small] by simp
  moreover have "0 < s"
  proof -
    have "0 < (10::nat) ^ (k - 1)" by simp
    then show ?thesis using p(1) by (rule less_le_trans)
  qed
  moreover have "n \<le> 16" using c d by auto
  ultimately show ?thesis by simp
qed

lemma digit_strings_own:
  assumes "0 < x" and "x < 10 ^ 15"
  shows "(x, length (decimal x)) \<in> set (digit_strings x (length (decimal x)))"
proof -
  have "x < 2 ^ 53" using assms(2) by simp
  then have "to_double x = Some x" by (rule to_double_exact)
  then show ?thesis using decimal_bounds [of x] assms(1) by (simp add: digit_strings_def Let_def)
qed

lemma Number_toString_small:
  assumes "x < 10 ^ 15"
  shows "Number_toString_nat x = decimal x"
proof (cases "x = 0")
  case True
  then show ?thesis by (simp add: Number_toString_nat_def decimal_zero)
next
  case False
  then have pos: "0 < x" by simp
  let ?ks = "[1, 2, 3, 4, 5, 6, 7, 8, 9, 10, 11, 12, 13, 14, 15, 16, 17] :: nat list"
  let ?d = "length (decimal x)"
  have ks: "?ks = [1 ..< 18]" by (simp add: upt_rec)
  have "?d \<le> 15" using assms by (intro length_decimal_le) simp_all
  moreover have "1 \<le> ?d" by (subst decimal.simps) simp
  ultimately have "?d \<in> set ?ks" unfolding ks by simp
  moreover have "digit_strings x ?d \<noteq> []" using digit_strings_own [OF pos assms] by auto
  ultimately have "\<exists>k\<in>set ?ks. digit_strings x k \<noteq> []" by (rule bexI [rotated])
  then have "find (\<lambda>k. digit_strings x k \<noteq> []) ?ks \<noteq> None"
    by (simp only: find_None_iff not_not Bex_def)
  then obtain k where k: "find (\<lambda>k. digit_strings x k \<noteq> []) ?ks = Some k"
    by (cases "find (\<lambda>k. digit_strings x k \<noteq> []) ?ks") simp_all
  have ne: "digit_strings x k \<noteq> []"
    using k by (simp only: find_Some_iff) blast
  obtain s n where sn: "foldl (closer x k) (hd (digit_strings x k)) (tl (digit_strings x k)) = (s, n)"
    by (cases "foldl (closer x k) (hd (digit_strings x k)) (tl (digit_strings x k))")
  have "(s, n) \<in> set (hd (digit_strings x k) # tl (digit_strings x k))"
    using foldl_closer_mem [of x k "hd (digit_strings x k)" "tl (digit_strings x k)"]
    by (simp only: sn)
  then have "(s, n) \<in> set (digit_strings x k)" using ne by simp
  from digit_strings_exact [OF assms this]
  have eq: "s * 10 ^ (n - k) = x" and s: "0 < s" and n: "n \<le> 16" by simp_all
  have "shortest_digits x = Some (k, s, n)"
    by (simp only: shortest_digits_def k option.case sn prod.case)
  then have "Number_toString_nat x = decimal s @ replicate (n - k) (CHR ''0'')"
    unfolding Number_toString_nat_def using False n by simp
  also have "\<dots> = decimal (s * 10 ^ (n - k))" using s by (simp add: decimal_times_power)
  finally show ?thesis by (simp add: eq)
qed

subsection \<open>Hash or height\<close>

lemma radix_digit_10: "radix_digit 10 c \<longleftrightarrow> 48 \<le> (of_char c :: nat) \<and> (of_char c :: nat) \<le> 57"
  by (auto simp: radix_digit_def digit_value_def Let_def split: option.splits if_splits)

lemma digit_value_10:
  "radix_digit 10 c \<Longrightarrow> digit_value c = Some ((of_char c :: nat) - 48)"
  by (simp add: radix_digit_10 digit_value_def)

lemma char_from_code: "(of_char c :: nat) = of_char d \<Longrightarrow> c = d"
  by (simp only: of_char_eq_iff)

lemma of_char_digit_char:
  assumes "k < 10"
  shows "(of_char (digit_char k) :: nat) = 48 + k"
proof -
  have "k = 0 \<or> k = 1 \<or> k = 2 \<or> k = 3 \<or> k = 4 \<or> k = 5 \<or> k = 6 \<or> k = 7 \<or> k = 8 \<or> k = 9"
    using assms by arith
  then show ?thesis by (elim disjE) (simp_all add: digit_char_def)
qed

lemma digit_char_inverse:
  assumes "radix_digit 10 c"
  shows "digit_char ((of_char c :: nat) - 48) = c"
proof (rule char_from_code)
  have "(of_char c :: nat) - 48 < 10" and "48 \<le> (of_char c :: nat)"
    using assms unfolding radix_digit_10 by arith+
  then show "(of_char (digit_char ((of_char c :: nat) - 48)) :: nat) = of_char c"
    by (simp add: of_char_digit_char)
qed

lemma mathInt_snoc:
  "mathInt R (xs @ [c]) = mathInt R xs * R + (case digit_value c of Some d \<Rightarrow> d | None \<Rightarrow> 0)"
  by (simp add: mathInt_def)

lemma decimal_mathInt:
  assumes "decimal_digits str" and "str \<noteq> []" and "hd str \<noteq> CHR ''0''"
  shows "decimal (mathInt 10 str) = str \<and> 0 < mathInt 10 str"
  using assms
proof (induction str rule: rev_induct)
  case Nil
  then show ?case by simp
next
  case (snoc c xs)
  have c: "radix_digit 10 c" using snoc.prems(1) by (simp add: decimal_digits_def)
  let ?d = "(of_char c :: nat) - 48"
  have d: "?d < 10" using c unfolding radix_digit_10 by arith
  have m: "mathInt 10 (xs @ [c]) = mathInt 10 xs * 10 + ?d"
    by (simp add: mathInt_snoc digit_value_10 [OF c])
  show ?case
  proof (cases "xs = []")
    case True
    then have "c \<noteq> CHR ''0''" using snoc.prems(3) by simp
    then have "(of_char c :: nat) \<noteq> of_char (CHR ''0'')" by (simp only: of_char_eq_iff) simp
    then have pos: "0 < ?d" using c unfolding radix_digit_10 by simp
    have "mathInt 10 (xs @ [c]) = ?d" using True m by (simp add: mathInt_def)
    then show ?thesis using True pos d digit_char_inverse [OF c] by (simp add: decimal_small)
  next
    case False
    then have "decimal_digits xs" "hd xs \<noteq> CHR ''0''"
      using snoc.prems by (simp_all add: decimal_digits_def)
    with snoc.IH False have ih: "decimal (mathInt 10 xs) = xs" "0 < mathInt 10 xs" by simp_all
    show ?thesis using m ih d digit_char_inverse [OF c] by (simp add: decimal_step)
  qed
qed

lemma mathInt_bound: "decimal_digits str \<Longrightarrow> mathInt 10 str < 10 ^ length str"
proof (induction str rule: rev_induct)
  case Nil
  show ?case by (simp add: mathInt_def)
next
  case (snoc c xs)
  have c: "radix_digit 10 c" using snoc.prems by (simp add: decimal_digits_def)
  have d: "(of_char c :: nat) - 48 < 10" using c unfolding radix_digit_10 by arith
  have "decimal_digits xs" using snoc.prems by (simp add: decimal_digits_def)
  then have "mathInt 10 xs < 10 ^ length xs" by (rule snoc.IH)
  then have "mathInt 10 xs * 10 + ((of_char c :: nat) - 48) < 10 ^ length xs * 10"
    using d by arith
  then show ?case by (simp add: mathInt_snoc digit_value_10 [OF c])
qed

lemma mathInt_15:
  assumes "decimal_digits str" and "length str \<le> 15"
  shows "mathInt 10 str < 10 ^ 15"
proof -
  have "mathInt 10 str < 10 ^ length str" using assms(1) by (rule mathInt_bound)
  also have "(10::nat) ^ length str \<le> 10 ^ 15" using assms(2) by (intro power_increasing) simp_all
  finally show ?thesis .
qed

lemma mathInt_leading_zero:
  "mathInt 10 (CHR ''0'' # rest) = mathInt 10 rest"
  by (simp add: mathInt_def digit_value_def)

lemma leading_zero_shorter:
  assumes "decimal_digits rest" and "rest \<noteq> []"
  shows "length (decimal (mathInt 10 (CHR ''0'' # rest))) < length (CHR ''0'' # rest)"
proof -
  have "length (decimal (mathInt 10 rest)) \<le> length rest"
    using mathInt_bound [OF assms(1)] assms(2) by (intro length_decimal_le) simp_all
  then show ?thesis by (simp add: mathInt_leading_zero)
qed

lemma parseInt_decimal_digits:
  assumes "decimal_digits str" and "str \<noteq> []" and "length str \<le> 15"
  shows "parseInt str = Integer (int (mathInt 10 str))"
proof -
  obtain c cs where str: "str = c # cs" using assms(2) by (cases str) simp_all
  have c: "radix_digit 10 c" and cs: "list_all (radix_digit 10) cs"
    using assms(1) by (simp_all add: decimal_digits_def str)
  have ws: "\<not> StrWhiteSpaceChar c"
    using c unfolding radix_digit_10 StrWhiteSpaceChar_def by auto
  have sign: "c \<noteq> CHR ''-''" "c \<noteq> CHR ''+''" using c unfolding radix_digit_10 by auto
  have prefix: "take 2 str \<noteq> ''0x''" "take 2 str \<noteq> ''0X''"
  proof -
    show "take 2 str \<noteq> ''0x''"
    proof (cases cs)
      case Nil
      then show ?thesis by (simp add: str)
    next
      case (Cons e es)
      then have "radix_digit 10 e" using cs by simp
      then have "e \<noteq> CHR ''x''" unfolding radix_digit_10 by auto
      then show ?thesis by (simp add: str Cons)
    qed
    show "take 2 str \<noteq> ''0X''"
    proof (cases cs)
      case Nil
      then show ?thesis by (simp add: str)
    next
      case (Cons e es)
      then have "radix_digit 10 e" using cs by simp
      then have "e \<noteq> CHR ''X''" unfolding radix_digit_10 by auto
      then show ?thesis by (simp add: str Cons)
    qed
  qed
  have all: "takeWhile (radix_digit 10) str = str"
    using assms(1) by (simp add: decimal_digits_def list_all_iff)
  have drop: "dropWhile StrWhiteSpaceChar str = str" using ws by (simp add: str)
  have t1: "take 1 str = [c]" by (simp add: str)
  have "mathInt 10 str < 2 ^ 53" using mathInt_15 [OF assms(1,3)] by simp
  then have exact: "to_double (mathInt 10 str) = Some (mathInt 10 str)" by (rule to_double_exact)
  show ?thesis
    unfolding parseInt_def drop Let_def t1 using sign prefix assms(2) by (simp add: all exact)
qed

lemma parseInt_single_zero:
  assumes "length str = 1" and "parseInt str = Integer 0"
  shows "str = ''0''"
proof -
  obtain c where str: "str = [c]" using assms(1) by (cases str) simp_all
  have small: "mathInt R [c] < 2 ^ 53" for R
  proof -
    have "mathInt R [c] \<le> 35"
      by (auto simp: mathInt_def digit_value_def Let_def)
    then show ?thesis by simp
  qed
  have digit: "radix_digit 10 c" and zero: "mathInt 10 [c] = 0"
    using assms(2) unfolding str
    by (auto simp: parseInt_def Let_def to_double_exact [OF small] split: if_splits)
  have "(of_char c :: nat) - 48 = 0"
    using zero by (simp add: mathInt_def digit_value_10 [OF digit])
  then have "(of_char c :: nat) = of_char (CHR ''0'')"
    using digit unfolding radix_digit_10 by simp
  then show ?thesis unfolding str by (simp only: of_char_eq_iff)
qed

lemma truthy_idx:
  assumes "str \<noteq> ''0''"
  shows "not_idx (parseInteger str) \<longleftrightarrow> \<not> prints_as_long str"
proof (cases "parseInt str")
  case (Integer i)
  show ?thesis
  proof (cases "length (Number_toString (Integer i)) = length str")
    case True
    have "i \<noteq> 0"
    proof
      assume "i = 0"
      then have "length str = 1" using True by (simp add: Number_toString_nat_def)
      then have "str = ''0''" using Integer \<open>i = 0\<close> by (intro parseInt_single_zero) simp_all
      with assms show False by contradiction
    qed
    then show ?thesis using Integer True by (simp add: parseInteger_def prints_as_long_def Let_def)
  next
    case False
    then show ?thesis using Integer by (simp add: parseInteger_def prints_as_long_def Let_def)
  qed
qed (simp_all add: parseInteger_def prints_as_long_def Let_def)

lemma parsed_when_long: "prints_as_long str \<Longrightarrow> parseInteger str = Some (parseInt str)"
  by (simp add: parseInteger_def prints_as_long_def Let_def)

lemma round_trips_long: "round_trips str \<Longrightarrow> prints_as_long str"
  by (auto simp: round_trips_def prints_as_long_def)

lemma digits_long_round_trips:
  assumes "decimal_digits str" and "str \<noteq> []" and "length str \<le> 15" and "prints_as_long str"
  shows "round_trips str"
proof -
  have p: "parseInt str = Integer (int (mathInt 10 str))"
    using assms(1,2,3) by (rule parseInt_decimal_digits)
  have prints: "Number_toString_nat (mathInt 10 str) = decimal (mathInt 10 str)"
    using mathInt_15 [OF assms(1,3)] by (rule Number_toString_small)
  have len: "length (decimal (mathInt 10 str)) = length str"
    using assms(4) by (simp add: prints_as_long_def p prints)
  obtain c cs where str: "str = c # cs" using assms(2) by (cases str) simp_all
  have "decimal (mathInt 10 str) = str"
  proof (cases "c = CHR ''0''")
    case False
    then show ?thesis using decimal_mathInt [OF assms(1,2)] by (simp add: str)
  next
    case True
    show ?thesis
    proof (cases "cs = []")
      case True
      with \<open>c = CHR ''0''\<close> show ?thesis
        by (simp add: str mathInt_def digit_value_def decimal_zero)
    next
      case False
      have "decimal_digits cs" using assms(1) by (simp add: decimal_digits_def str)
      from leading_zero_shorter [OF this False] len show ?thesis
        by (simp add: str True)
    qed
  qed
  then show ?thesis by (simp add: round_trips_def p prints)
qed

text \<open>Rules that compute on numerals, and the examples.\<close>

lemma bit_length_numeral:
  "bit_length 0 = 0" "bit_length 1 = 1" "bit_length (Suc 0) = 1"
  "bit_length (numeral k) = Suc (bit_length (numeral k div 2))"
  by (simp_all add: bit_length.simps)

lemma decimal_numeral:
  "decimal 0 = ''0''" "decimal 1 = ''1''" "decimal (Suc 0) = ''1''"
  "decimal (numeral k) =
     (if (numeral k :: nat) < 10 then [digit_char (numeral k)]
      else decimal (numeral k div 10) @ [digit_char (numeral k mod 10)])"
  by (simp_all add: decimal.simps [of 0] decimal.simps [of 1] decimal.simps [of "Suc 0"]
      decimal.simps [of "numeral k"] digit_char_def)

lemma length_decimal_numeral:
  "length (decimal 0) = 1" "length (decimal 1) = 1" "length (decimal (Suc 0)) = 1"
  "length (decimal (numeral k)) =
     (if (numeral k :: nat) < 10 then 1 else length (decimal (numeral k div 10)) + 1)"
  by (simp_all add: decimal.simps [of 0] decimal.simps [of 1] decimal.simps [of "Suc 0"]
      decimal.simps [of "numeral k"])

lemmas parse_defs = parseInt_def StrWhiteSpaceChar_def radix_digit_def
  digit_value_def mathInt_def to_double_def Let_def bit_length_numeral

lemmas shortest_defs = shortest_digits_def digit_strings_def closer_def distance_def
  to_double_def Let_def bit_length_numeral length_decimal_numeral

lemma parseInt_12345: "parseInt ''12345'' = Integer 12345" by (simp add: parse_defs)
lemma parseInt_00012345: "parseInt ''00012345'' = Integer 12345" by (simp add: parse_defs)
lemma parseInt_0xFFFFFFFF: "parseInt ''0xFFFFFFFF'' = Integer 4294967295" by (simp add: parse_defs)
lemma parseInt_0: "parseInt ''0'' = Integer 0" by (simp add: parse_defs)

lemma parseInt_hash:
  "parseInt ''7fb97df81221dd1366051b2d0bc7f49c66c22ac4431d879c895b06d66ef66f4c'' = Integer 7"
  by (simp add: parse_defs)

lemma parseInt_22_digits:
  "parseInt ''1000000000000000000000'' = Integer 1000000000000000000000"
  by (simp add: parse_defs)

lemma toString_0: "Number_toString_nat 0 = ''0''"
  by (simp add: Number_toString_nat_def)

lemma toString_7: "Number_toString_nat 7 = ''7''"
  using Number_toString_small [of 7] by (simp add: decimal_numeral digit_char_def)

lemma toString_12345: "Number_toString_nat 12345 = ''12345''"
  using Number_toString_small [of 12345] by (simp add: decimal_numeral digit_char_def)

lemma toString_4294967295: "Number_toString_nat 4294967295 = ''4294967295''"
  using Number_toString_small [of 4294967295] by (simp add: decimal_numeral digit_char_def)

lemma shortest_digits_1e21: "shortest_digits 1000000000000000000000 = Some (1, 1, 22)"
  by (simp add: shortest_defs)

lemma toString_1e21: "Number_toString_nat 1000000000000000000000 = ''1e+21''"
  by (simp add: Number_toString_nat_def shortest_digits_1e21 decimal_numeral digit_char_def)

text \<open>
  C3, as the code has it. For every identifier \<open>str\<close> other than \<open>0\<close>, of any length,
  both generic routes look a height up exactly when \<open>parseInt(str)\<close> is a number whose
  string has the length of \<open>str\<close> (the lengths are compared, not the strings), with the
  parsed number as the height; otherwise they look the hash \<open>str\<close> up. An identifier that
  parsing and printing reproduces passes this test, and for an identifier of up to 15
  decimal digits the test is the same as reproducing it.
\<close>

theorem identifier_dispatch:
  assumes "ps ''idx'' = Some str" and "str \<noteq> []" and "str \<noteq> ''0''"
  shows "handler s Block_header_idx ps =
           (if prints_as_long str
            then Invoke (Op_getBlockHeaderByHeight (defaultHost s, defaultPort s) (Some (parseInt str)))
            else Invoke (Op_getBlockHeaderByHash (defaultHost s, defaultPort s) str)) \<and>
         handler s Block_idx ps =
           (if prints_as_long str
            then Invoke (Op_getBlockHash (defaultHost s, defaultPort s) (Some (parseInt str)))
            else Invoke (Op_getBlock (defaultHost s, defaultPort s) str)) \<and>
         height_lookup (handler s Block_header_idx ps) = prints_as_long str \<and>
         hash_lookup (handler s Block_header_idx ps) = (\<not> prints_as_long str) \<and>
         height_lookup (handler s Block_idx ps) = prints_as_long str \<and>
         hash_lookup (handler s Block_idx ps) = (\<not> prints_as_long str) \<and>
         (round_trips str \<longrightarrow> prints_as_long str) \<and>
         (decimal_digits str \<and> length str \<le> 15 \<longrightarrow> (prints_as_long str \<longleftrightarrow> round_trips str))"
proof -
  have present: "\<not> missing (ps ''idx'')" "the_default [] (ps ''idx'') = str"
    using assms(1,2) by (simp_all add: missing_def the_default_def)
  have header: "handler s Block_header_idx ps =
           (if prints_as_long str
            then Invoke (Op_getBlockHeaderByHeight (defaultHost s, defaultPort s) (Some (parseInt str)))
            else Invoke (Op_getBlockHeaderByHash (defaultHost s, defaultPort s) str))"
    using present truthy_idx [OF assms(3)] parsed_when_long [of str] by (simp add: Let_def)
  have block: "handler s Block_idx ps =
           (if prints_as_long str
            then Invoke (Op_getBlockHash (defaultHost s, defaultPort s) (Some (parseInt str)))
            else Invoke (Op_getBlock (defaultHost s, defaultPort s) str))"
    using present truthy_idx [OF assms(3)] parsed_when_long [of str] by (simp add: Let_def)
  have kinds: "height_lookup (handler s Block_header_idx ps) = prints_as_long str"
    "hash_lookup (handler s Block_header_idx ps) = (\<not> prints_as_long str)"
    "height_lookup (handler s Block_idx ps) = prints_as_long str"
    "hash_lookup (handler s Block_idx ps) = (\<not> prints_as_long str)"
    unfolding header block by simp_all
  show ?thesis
    using header block kinds round_trips_long [of str] digits_long_round_trips [OF _ assms(2)]
    by blast
qed

theorem identifier_dispatch_witness:
  "[''idx'' \<mapsto> ''12345''] ''idx'' = Some ''12345'' \<and> ''12345'' \<noteq> [] \<and> ''12345'' \<noteq> ''0'' \<and>
   decimal_digits ''12345'' \<and> length ''12345'' \<le> 15 \<and> round_trips ''12345'' \<and>
   handler (Self no_opts 0) Block_header_idx [''idx'' \<mapsto> ''12345''] =
     Invoke (Op_getBlockHeaderByHeight (PStr ''public.turtlenode.io'', PNum 11898)
               (Some (Integer 12345))) \<and>
   handler (Self no_opts 0) Block_idx [''idx'' \<mapsto> ''12345''] =
     Invoke (Op_getBlockHash (PStr ''public.turtlenode.io'', PNum 11898) (Some (Integer 12345))) \<and>
   [''idx'' \<mapsto> ''00012345''] ''idx'' = Some ''00012345'' \<and> ''00012345'' \<noteq> [] \<and>
   ''00012345'' \<noteq> ''0'' \<and> \<not> round_trips ''00012345'' \<and>
   handler (Self no_opts 0) Block_header_idx [''idx'' \<mapsto> ''00012345''] =
     Invoke (Op_getBlockHeaderByHash (PStr ''public.turtlenode.io'', PNum 11898) ''00012345'') \<and>
   handler (Self no_opts 0) Block_idx [''idx'' \<mapsto> ''00012345''] =
     Invoke (Op_getBlock (PStr ''public.turtlenode.io'', PNum 11898) ''00012345'') \<and>
   \<not> prints_as_long ''7fb97df81221dd1366051b2d0bc7f49c66c22ac4431d879c895b06d66ef66f4c'' \<and>
   handler (Self no_opts 0) Block_idx
     [''idx'' \<mapsto> ''7fb97df81221dd1366051b2d0bc7f49c66c22ac4431d879c895b06d66ef66f4c''] =
     Invoke (Op_getBlock (PStr ''public.turtlenode.io'', PNum 11898)
               ''7fb97df81221dd1366051b2d0bc7f49c66c22ac4431d879c895b06d66ef66f4c'') \<and>
   \<not> prints_as_long ''1000000000000000000000'' \<and>
   handler (Self no_opts 0) Block_idx [''idx'' \<mapsto> ''1000000000000000000000''] =
     Invoke (Op_getBlock (PStr ''public.turtlenode.io'', PNum 11898) ''1000000000000000000000'')"
proof -
  let ?s = "Self no_opts 0"
  let ?hash = "''7fb97df81221dd1366051b2d0bc7f49c66c22ac4431d879c895b06d66ef66f4c''"
  let ?long = "''1000000000000000000000''"
  have dflt: "defaultHost ?s = PStr ''public.turtlenode.io''" "defaultPort ?s = PNum 11898"
    by (simp_all add: Self_def no_opts_def or_default_def)
  have a: "[''idx'' \<mapsto> ''12345''] ''idx'' = Some ''12345''" "''12345'' \<noteq> []" "''12345'' \<noteq> ''0''"
    by simp_all
  have b: "[''idx'' \<mapsto> ''00012345''] ''idx'' = Some ''00012345''" "''00012345'' \<noteq> []"
    "''00012345'' \<noteq> ''0''" by simp_all
  have c: "[''idx'' \<mapsto> ?hash] ''idx'' = Some ?hash" "?hash \<noteq> []" "?hash \<noteq> ''0''" by simp_all
  have e: "[''idx'' \<mapsto> ?long] ''idx'' = Some ?long" "?long \<noteq> []" "?long \<noteq> ''0''" by simp_all
  have d: "decimal_digits ''12345''" "length ''12345'' \<le> 15"
    by (simp_all add: decimal_digits_def radix_digit_def digit_value_def)
  have r1: "round_trips ''12345''" by (simp add: round_trips_def parseInt_12345 toString_12345)
  have r2: "\<not> round_trips ''00012345''" by (simp add: round_trips_def parseInt_00012345 toString_12345)
  have l1: "prints_as_long ''12345''" by (simp add: prints_as_long_def parseInt_12345 toString_12345)
  have l2: "\<not> prints_as_long ''00012345''"
    by (simp add: prints_as_long_def parseInt_00012345 toString_12345)
  have l3: "\<not> prints_as_long ?hash" by (simp add: prints_as_long_def parseInt_hash toString_7)
  have l4: "\<not> prints_as_long ?long"
    by (simp add: prints_as_long_def parseInt_22_digits toString_1e21)
  from identifier_dispatch [where ps = "[''idx'' \<mapsto> ''12345'']" and str = "''12345''" and s = ?s, OF a]
    identifier_dispatch [where ps = "[''idx'' \<mapsto> ''00012345'']" and str = "''00012345''" and s = ?s, OF b]
    identifier_dispatch [where ps = "[''idx'' \<mapsto> ?hash]" and str = ?hash and s = ?s, OF c]
    identifier_dispatch [where ps = "[''idx'' \<mapsto> ?long]" and str = ?long and s = ?s, OF e]
  show ?thesis using a b d r1 r2 l1 l2 l3 l4 by (simp add: dflt parseInt_12345)
qed

text \<open>
  C3, as the claim states it, fails in both directions: \<open>0\<close> is reproduced by parsing and
  printing and is looked up as a hash (\<open>!idx\<close> holds of the height 0), and \<open>0xFFFFFFFF\<close>
  is not reproduced (it prints as \<open>4294967295\<close>, of the same length) and is looked up as
  the height 4294967295.
\<close>

theorem identifier_dispatch_counterexample:
  "round_trips ''0'' \<and>
   handler (Self no_opts 0) Block_header_idx [''idx'' \<mapsto> ''0''] =
     Invoke (Op_getBlockHeaderByHash (PStr ''public.turtlenode.io'', PNum 11898) ''0'') \<and>
   \<not> height_lookup (handler (Self no_opts 0) Block_header_idx [''idx'' \<mapsto> ''0'']) \<and>
   \<not> round_trips ''0xFFFFFFFF'' \<and>
   handler (Self no_opts 0) Block_header_idx [''idx'' \<mapsto> ''0xFFFFFFFF''] =
     Invoke (Op_getBlockHeaderByHeight (PStr ''public.turtlenode.io'', PNum 11898)
               (Some (Integer 4294967295))) \<and>
   height_lookup (handler (Self no_opts 0) Block_header_idx [''idx'' \<mapsto> ''0xFFFFFFFF''])"
proof -
  let ?s = "Self no_opts 0"
  have dflt: "defaultHost ?s = PStr ''public.turtlenode.io''" "defaultPort ?s = PNum 11898"
    by (simp_all add: Self_def no_opts_def or_default_def)
  have r0: "round_trips ''0''" by (simp add: round_trips_def parseInt_0 toString_0)
  have p0: "parseInteger ''0'' = Some (Integer 0)"
    by (simp add: parseInteger_def parseInt_0 toString_0)
  have rx: "\<not> round_trips ''0xFFFFFFFF''"
    by (simp add: round_trips_def parseInt_0xFFFFFFFF toString_4294967295)
  have px: "parseInteger ''0xFFFFFFFF'' = Some (Integer 4294967295)"
    by (simp add: parseInteger_def parseInt_0xFFFFFFFF toString_4294967295)
  show ?thesis using r0 rx by (simp add: dflt p0 px missing_def the_default_def)
qed

end
